theory Spec2Isabelle
  imports Main "HOL-Library.Word"
begin

unbundle bit_operations_syntax

section \<open>red-channel.c: channels, channel-clients and clients\<close>

subsection \<open>Data\<close>

text \<open>
  Modelled from the spec: red-channel-client.c is not among the sources. The specification
  gives a channel-client a blocked flag, an outbound pipe, a stream and remote capability
  vectors. A channel-client is represented by the values that the accessor functions
  called from red-channel.c return for it:
  \<open>red_channel_client_is_blocked\<close>, \<open>red_channel_client_no_item_being_sent\<close>,
  \<open>red_channel_client_get_pipe_size\<close> (a \<open>uint32_t\<close>),
  \<open>red_channel_client_get_stream(rcc)->socket\<close>,
  \<open>red_channel_client_test_remote_common_cap\<close> and
  \<open>red_channel_client_test_remote_cap\<close>.
\<close>

record RedChannelClient =
  is_blocked :: bool
  no_item_being_sent :: bool
  get_pipe_size :: "32 word"
  stream_socket :: int
  test_remote_common_cap :: "32 word \<Rightarrow> bool"
  test_remote_cap :: "32 word \<Rightarrow> bool"

text \<open>A function pointer of the class structure: \<open>NULL\<close> or some function.\<close>

datatype fnptr = NULL | Fn nat

record IncomingHandlerInterface =
  alloc_msg_buf :: fnptr
  release_msg_buf :: fnptr
  cb_handle_message :: fnptr
  cb_handle_parsed :: fnptr
  cb_parser :: fnptr

text \<open>\<open>struct RedChannelPrivate\<close>, the fields that the modelled functions read or write.\<close>

record RedChannel =
  channel_type :: "32 word"
  channel_id :: "32 word"
  handle_acks :: bool
  clients :: "RedChannelClient list"
  migration_flags :: "32 word"
  incoming_cb :: IncomingHandlerInterface

text \<open>
  \<open>RedChannelClass\<close>: the callbacks a channel subclass provides. The structure is
  declared in red-channel.h; the fields are those that red-channel.c names.
\<close>

record RedChannelClass =
  config_socket :: fnptr
  on_disconnect :: fnptr
  alloc_recv_buf :: fnptr
  release_recv_buf :: fnptr
  handle_message :: fnptr
  handle_parsed :: fnptr
  parser :: fnptr
  handle_migrate_data :: fnptr

text \<open>
  \<open>RedClient\<close>, declared in red-channel.h: the migration fields that red-channel.c names.
  The specification calls \<open>num_migrated_channels\<close> an integer; it is taken as a C
  \<open>int\<close> and the decrement is modelled on a 32-bit word, so it wraps where C leaves it
  undefined.
\<close>

record RedClient =
  during_target_migrate :: bool
  seamless_migrate :: bool
  num_migrated_channels :: "32 word"

text \<open>
  What \<open>red_client_seamless_migration_done_for_channel\<close> does besides updating the client:
  taking and releasing \<open>client->lock\<close>, and calling
  \<open>main_dispatcher_seamless_migrate_dst_complete\<close>.
\<close>

datatype client_event = Lock | Unlock | Notify_dst_complete

subsection \<open>Aggregate queries\<close>

text \<open>
  Modelled from the spec: \<open>FOREACH_CLIENT\<close> is declared in red-channel.h, which is not
  among the sources. The specification has the aggregates range over the connected
  channel-clients of the channel, in list order. For a \<open>NULL\<close> channel the macro is taken
  to iterate over nothing, like its sibling \<open>FOREACH_CHANNEL_CLIENT\<close> (red-channel.c,
  line 34). A channel pointer is a \<open>RedChannel option\<close>, \<open>None\<close> being \<open>NULL\<close>.
\<close>

definition FOREACH_CLIENT :: "RedChannel option \<Rightarrow> RedChannelClient list" where
  "FOREACH_CLIENT channel = (case channel of None \<Rightarrow> [] | Some c \<Rightarrow> clients c)"

fun test_remote_common_cap_loop :: "RedChannelClient list \<Rightarrow> 32 word \<Rightarrow> bool" where
  "test_remote_common_cap_loop [] cap = True"
| "test_remote_common_cap_loop (rcc # rest) cap =
     (if \<not> test_remote_common_cap rcc cap then False
      else test_remote_common_cap_loop rest cap)"

definition red_channel_test_remote_common_cap :: "RedChannel option \<Rightarrow> 32 word \<Rightarrow> bool" where
  "red_channel_test_remote_common_cap channel cap =
     test_remote_common_cap_loop (FOREACH_CLIENT channel) cap"

fun test_remote_cap_loop :: "RedChannelClient list \<Rightarrow> 32 word \<Rightarrow> bool" where
  "test_remote_cap_loop [] cap = True"
| "test_remote_cap_loop (rcc # rest) cap =
     (if \<not> test_remote_cap rcc cap then False else test_remote_cap_loop rest cap)"

definition red_channel_test_remote_cap :: "RedChannel option \<Rightarrow> 32 word \<Rightarrow> bool" where
  "red_channel_test_remote_cap channel cap = test_remote_cap_loop (FOREACH_CLIENT channel) cap"

definition red_channel_is_connected :: "RedChannel option \<Rightarrow> bool" where
  "red_channel_is_connected channel =
     (case channel of None \<Rightarrow> False | Some c \<Rightarrow> clients c \<noteq> [])"

fun all_blocked_loop :: "RedChannelClient list \<Rightarrow> bool" where
  "all_blocked_loop [] = True"
| "all_blocked_loop (rcc # rest) =
     (if \<not> is_blocked rcc then False else all_blocked_loop rest)"

definition red_channel_all_blocked :: "RedChannel option \<Rightarrow> bool" where
  "red_channel_all_blocked channel =
     (case channel of
        None \<Rightarrow> False
      | Some c \<Rightarrow> if clients c = [] then False else all_blocked_loop (FOREACH_CLIENT channel))"

fun any_blocked_loop :: "RedChannelClient list \<Rightarrow> bool" where
  "any_blocked_loop [] = False"
| "any_blocked_loop (rcc # rest) = (if is_blocked rcc then True else any_blocked_loop rest)"

definition red_channel_any_blocked :: "RedChannel option \<Rightarrow> bool" where
  "red_channel_any_blocked channel = any_blocked_loop (FOREACH_CLIENT channel)"

definition red_channel_get_first_socket :: "RedChannel option \<Rightarrow> int" where
  "red_channel_get_first_socket channel =
     (case channel of
        None \<Rightarrow> - 1
      | Some c \<Rightarrow> (case clients c of [] \<Rightarrow> - 1 | rcc # rest \<Rightarrow> stream_socket rcc))"

fun no_item_being_sent_loop :: "RedChannelClient list \<Rightarrow> bool" where
  "no_item_being_sent_loop [] = True"
| "no_item_being_sent_loop (rcc # rest) =
     (if \<not> no_item_being_sent rcc then False else no_item_being_sent_loop rest)"

definition red_channel_no_item_being_sent :: "RedChannel option \<Rightarrow> bool" where
  "red_channel_no_item_being_sent channel = no_item_being_sent_loop (FOREACH_CLIENT channel)"

text \<open>The three pipe-size loops carry the \<open>uint32_t\<close> accumulator of the source.\<close>

fun max_pipe_size_loop :: "RedChannelClient list \<Rightarrow> 32 word \<Rightarrow> 32 word" where
  "max_pipe_size_loop [] pipe_size = pipe_size"
| "max_pipe_size_loop (rcc # rest) pipe_size =
     max_pipe_size_loop rest (max pipe_size (get_pipe_size rcc))"

definition red_channel_max_pipe_size :: "RedChannel option \<Rightarrow> 32 word" where
  "red_channel_max_pipe_size channel = max_pipe_size_loop (FOREACH_CLIENT channel) 0"

fun min_pipe_size_loop :: "RedChannelClient list \<Rightarrow> 32 word \<Rightarrow> 32 word" where
  "min_pipe_size_loop [] pipe_size = pipe_size"
| "min_pipe_size_loop (rcc # rest) pipe_size =
     min_pipe_size_loop rest (min pipe_size (get_pipe_size rcc))"

definition red_channel_min_pipe_size :: "RedChannel option \<Rightarrow> 32 word" where
  "red_channel_min_pipe_size channel =
     (let pipe_size = min_pipe_size_loop (FOREACH_CLIENT channel) (NOT 0)
      in if pipe_size = NOT 0 then 0 else pipe_size)"

fun sum_pipes_size_loop :: "RedChannelClient list \<Rightarrow> 32 word \<Rightarrow> 32 word" where
  "sum_pipes_size_loop [] acc = acc"
| "sum_pipes_size_loop (rcc # rest) acc = sum_pipes_size_loop rest (acc + get_pipe_size rcc)"

definition red_channel_sum_pipes_size :: "RedChannel option \<Rightarrow> 32 word" where
  "red_channel_sum_pipes_size channel = sum_pipes_size_loop (FOREACH_CLIENT channel) 0"

subsection \<open>Construction\<close>

text \<open>
  \<open>red_channel_constructed\<close>: a failed \<open>spice_assert\<close> aborts, which is \<open>None\<close>.
  \<open>SPICE_MIGRATE_NEED_DATA_TRANSFER\<close> comes from the protocol headers, which are not among
  the sources; it is the first parameter.
\<close>

definition red_channel_constructed ::
  "32 word \<Rightarrow> RedChannelClass \<Rightarrow> RedChannel \<Rightarrow> RedChannel option" where
  "red_channel_constructed NEED_DATA_TRANSFER klass self =
     (if \<not> (config_socket klass \<noteq> NULL \<and> on_disconnect klass \<noteq> NULL \<and>
             alloc_recv_buf klass \<noteq> NULL \<and> release_recv_buf klass \<noteq> NULL) then None
      else if \<not> (handle_migrate_data klass \<noteq> NULL \<or>
                  \<not> (migration_flags self AND NEED_DATA_TRANSFER \<noteq> 0)) then None
      else Some (self\<lparr>incoming_cb := (incoming_cb self)\<lparr>
             alloc_msg_buf := alloc_recv_buf klass,
             release_msg_buf := release_recv_buf klass,
             cb_handle_message := handle_message klass,
             cb_handle_parsed := handle_parsed klass,
             cb_parser := parser klass\<rparr>\<rparr>))"

subsection \<open>Seamless migration accounting\<close>

text \<open>
  \<open>red_client_seamless_migration_done_for_channel\<close> returns its result, the updated client
  and the events in the order the code produces them.
\<close>

definition red_client_seamless_migration_done_for_channel ::
  "RedClient \<Rightarrow> bool \<times> RedClient \<times> client_event list" where
  "red_client_seamless_migration_done_for_channel client =
     (let client1 = client\<lparr>num_migrated_channels := num_migrated_channels client - 1\<rparr>
      in if num_migrated_channels client1 = 0
         then (True,
               client1\<lparr>during_target_migrate := False, seamless_migrate := False\<rparr>,
               [Lock, Notify_dst_complete, Unlock])
         else (False, client1, [Lock, Unlock]))"

text \<open>Concrete values used to exercise the theorems.\<close>

definition no_cbs :: IncomingHandlerInterface where
  "no_cbs = \<lparr>alloc_msg_buf = NULL, release_msg_buf = NULL, cb_handle_message = NULL,
             cb_handle_parsed = NULL, cb_parser = NULL\<rparr>"

definition empty_channel :: RedChannel where
  "empty_channel = \<lparr>channel_type = 1, channel_id = 0, handle_acks = False, clients = [],
                    migration_flags = 0, incoming_cb = no_cbs\<rparr>"

definition full_class :: RedChannelClass where
  "full_class = \<lparr>config_socket = Fn 1, on_disconnect = Fn 2, alloc_recv_buf = Fn 3,
                 release_recv_buf = Fn 4, handle_message = Fn 5, handle_parsed = NULL,
                 parser = NULL, handle_migrate_data = Fn 6\<rparr>"

definition migrating_client :: "32 word \<Rightarrow> RedClient" where
  "migrating_client n = \<lparr>during_target_migrate = True, seamless_migrate = True,
                          num_migrated_channels = n\<rparr>"

section \<open>websocket.c: the WebSocket framer\<close>

subsection \<open>Data and the raw stream\<close>

type_synonym byte = "8 word"

text \<open>The values of \<open>errno\<close> that the code sets or tests, and one other.\<close>

datatype errno_t = EIO | EPIPE | EAGAIN | EINTR | ECONNRESET

text \<open>
  The raw stream and its three callbacks are the caller's. They are represented by what
  they are going to do. \<open>inbound\<close> is what \<open>raw_read\<close> will find: chunks of bytes, end of
  stream, or an error. \<open>wr_results\<close> lists the results of the coming calls of \<open>raw_write\<close>
  and \<open>raw_writev\<close>, each with the \<open>errno\<close> it leaves when it is negative; any integer is
  allowed here. \<open>wr_log\<close> records, for every such call made, the number of bytes offered
  and the result. \<open>errno\<close> is the C variable.
\<close>

datatype rd_event = RdData "byte list" | RdEof | RdErr errno_t

record world =
  errno :: errno_t
  inbound :: "rd_event list"
  wr_results :: "(int \<times> errno_t) list"
  wr_log :: "(nat \<times> int) list"

definition INT_MAX :: nat where
  "INT_MAX = 2147483647"

text \<open>
  \<open>raw_read w nbyte\<close> returns the result, the bytes stored into the buffer and the new
  world. It delivers at most \<open>nbyte\<close> bytes of the first chunk, and at most \<open>INT_MAX\<close>, since
  the code keeps the result in an \<open>int\<close>. With nothing pending it fails with \<open>EAGAIN\<close>.
\<close>

definition raw_read :: "world \<Rightarrow> nat \<Rightarrow> int \<times> byte list \<times> world" where
  "raw_read w nbyte =
     (case inbound w of
        [] \<Rightarrow> (- 1, [], w\<lparr>errno := EAGAIN\<rparr>)
      | RdEof # rest \<Rightarrow> (0, [], w\<lparr>inbound := rest\<rparr>)
      | RdErr e # rest \<Rightarrow> (- 1, [], w\<lparr>errno := e, inbound := rest\<rparr>)
      | RdData bs # rest \<Rightarrow>
          (let k = min (min nbyte (length bs)) INT_MAX
           in (int k, take k bs,
               w\<lparr>inbound := (if k < length bs then RdData (drop k bs) # rest else rest)\<rparr>)))"

definition raw_write :: "world \<Rightarrow> nat \<Rightarrow> int \<times> world" where
  "raw_write w nbyte =
     (case wr_results w of
        [] \<Rightarrow> (- 1, w\<lparr>errno := EAGAIN, wr_log := wr_log w @ [(nbyte, - 1)]\<rparr>)
      | (r, e) # rest \<Rightarrow>
          (r, w\<lparr>errno := (if r < 0 then e else errno w), wr_results := rest,
                wr_log := wr_log w @ [(nbyte, r)]\<rparr>))"

text \<open>An \<open>iovec\<close> array is the list of its \<open>iov_len\<close> fields.\<close>

definition raw_writev :: "world \<Rightarrow> nat list \<Rightarrow> int \<times> world" where
  "raw_writev w iov = raw_write w (sum_list iov)"

text \<open>An \<open>int\<close> converted to \<open>size_t\<close>.\<close>

definition size_t_of_int :: "int \<Rightarrow> nat" where
  "size_t_of_int k = nat (k mod 2 ^ 64)"

text \<open>
  The two structures of websocket.c. The fields \<open>type\<close> and \<open>mask\<close> of the frame are
  named \<open>ftype\<close> and \<open>fmask\<close> here; arrays are lists of their bytes, 14 for both
  headers and 4 for the mask. The callback pointers and the opaque stream are the world.
\<close>

record websocket_frame_t =
  ftype :: byte
  header :: "byte list"
  header_pos :: int
  frame_ready :: bool
  masked :: bool
  fmask :: "byte list"
  relayed :: "64 word"
  expected_len :: "64 word"

record RedsWebSocket =
  closed :: bool
  read_frame :: websocket_frame_t
  write_remainder :: "64 word"
  write_header :: "byte list"
  write_header_pos :: byte
  write_header_len :: byte
  close_pending :: bool

subsection \<open>Inbound frames\<close>

text \<open>
  \<open>(*buf++) << i\<close> shifts an \<open>int\<close>, the promoted byte. C leaves a shift by 32 or more
  undefined; the model follows gcc on x86, where the count is taken modulo 32. The
  \<open>int\<close> is then converted to \<open>uint64_t\<close> with its sign.
\<close>

definition int_shl :: "32 word \<Rightarrow> nat \<Rightarrow> 32 word" where
  "int_shl v i = push_bit (i mod 32) v"

function extract_length_loop :: "byte list \<Rightarrow> int \<Rightarrow> 64 word \<Rightarrow> 64 word" where
  "extract_length_loop buf i outlen =
     (if i \<ge> 0
      then extract_length_loop (drop 1 buf) (i - 8)
             (outlen OR scast (int_shl (ucast (buf ! 0)) (nat i)))
      else outlen)"
  by pat_completeness auto
termination
  by (relation "measure (\<lambda>(buf, i, outlen). nat (i + 8))") auto

declare extract_length_loop.simps [simp del]

definition extract_length :: "byte list \<Rightarrow> int \<Rightarrow> 64 word \<times> int" where
  "extract_length buf used =
     (let outlen = (ucast (buf ! 0 AND 0x7F) :: 64 word); used = used + 1
      in if outlen = 0x7F then (extract_length_loop (drop 1 buf) 56 0, used + 8)
         else if outlen = 0x7E
           then (scast (int_shl (ucast (buf ! 1)) 8 OR (ucast (buf ! 2) :: 32 word)), used + 2)
         else (outlen, used))"

definition frame_bytes_needed :: "websocket_frame_t \<Rightarrow> int" where
  "frame_bytes_needed frame =
     (if header_pos frame < 2 then 2 - header_pos frame
      else (let l = header frame ! 1 AND 0x7F;
                needed = 2 + (if l = 0x7F then 8 else if l = 0x7E then 2 else 0);
                needed = needed + (if header frame ! 1 AND 0x80 \<noteq> 0 then 4 else 0)
            in needed - header_pos frame))"

definition websocket_clear_frame :: websocket_frame_t where
  "websocket_clear_frame =
     \<lparr>ftype = 0, header = replicate 14 0, header_pos = 0, frame_ready = False,
      masked = False, fmask = replicate 4 0, relayed = 0, expected_len = 0\<rparr>"

definition websocket_get_frame_header :: "websocket_frame_t \<Rightarrow> bool \<times> websocket_frame_t" where
  "websocket_get_frame_header frame0 =
     (if frame_bytes_needed frame0 > 0 then (True, frame0)
      else
        (let fin = header frame0 ! 0 AND 0x80;
             frame = frame0\<lparr>ftype := header frame0 ! 0 AND 0x0F\<rparr>;
             used = 1
         in if header frame ! 0 AND 0x70 \<noteq> 0 then (False, frame)
            else if fin = 0 \<and> ftype frame AND 0x8 \<noteq> 0 then (False, frame)
            else if ftype frame AND NOT 0x8 \<ge> 3 then (False, frame)
            else
              (let frame = frame\<lparr>masked := (header frame ! 1 AND 0x80 \<noteq> 0)\<rparr>;
                   frame = (if fin = 0 \<and> ftype frame = 0x0 then frame\<lparr>ftype := 0x2\<rparr>
                            else frame);
                   (len, used) = extract_length (drop (nat used) (header frame)) used;
                   frame = frame\<lparr>expected_len := len\<rparr>;
                   frame = (if masked frame
                            then frame\<lparr>fmask := take 4 (drop (nat used) (header frame))\<rparr>
                            else frame)
               in if ftype frame AND 0x8 \<noteq> 0 \<and> expected_len frame \<ge> 0x7E
                  then (False, frame)
                  else (True, frame\<lparr>relayed := 0, frame_ready := True\<rparr>))))"

text \<open>
  The loop of \<open>relay_data\<close>: it unmasks one byte and advances \<open>frame->relayed\<close> with it.
\<close>

fun relay_data_loop :: "byte list \<Rightarrow> byte list \<Rightarrow> 64 word \<Rightarrow> byte list \<times> 64 word" where
  "relay_data_loop [] m r = ([], r)"
| "relay_data_loop (b # bs) m r =
     (let (bs', r') = relay_data_loop bs m (r + 1)
      in ((b XOR m ! unat (r mod 4)) # bs', r'))"

text \<open>
  \<open>relay_data buf sz frame\<close> returns \<open>n\<close>, the buffer and the frame. \<open>sz\<close> is a positive
  \<open>int\<close> result of \<open>raw_read\<close>, so the minimum fits the \<open>int n\<close>.
\<close>

definition relay_data :: "byte list \<Rightarrow> nat \<Rightarrow> websocket_frame_t \<Rightarrow> int \<times> byte list \<times> websocket_frame_t" where
  "relay_data buf sz frame =
     (let n = min sz (unat (expected_len frame - relayed frame))
      in if masked frame
         then (let (buf', r') = relay_data_loop (take n buf) (fmask frame) (relayed frame)
               in (int n, buf' @ drop n buf, frame\<lparr>relayed := r'\<rparr>))
         else (int n, buf, frame))"

subsection \<open>Outbound frames\<close>

function fill_header_loop :: "byte list \<Rightarrow> int \<Rightarrow> 64 word \<Rightarrow> byte list" where
  "fill_header_loop hdr i len =
     (if i \<ge> 2
      then fill_header_loop (hdr[nat i := ucast (len AND 0xFF)]) (i - 1) (drop_bit 8 len)
      else hdr)"
  by pat_completeness auto
termination
  by (relation "measure (\<lambda>(hdr, i, len). nat i)") auto

declare fill_header_loop.simps [simp del]

text \<open>\<open>fill_header hdr len\<close> returns the header array and \<open>used\<close>.\<close>

definition fill_header :: "byte list \<Rightarrow> 64 word \<Rightarrow> byte list \<times> int" where
  "fill_header hdr0 len =
     (let hdr = hdr0[0 := 0x80 OR 0x2];
          hdr = hdr[1 := 0]
      in if len > 65535 then (fill_header_loop (hdr[1 := hdr ! 1 OR 0x7F]) 9 len, 10)
         else if len \<ge> 0x7E
           then (hdr[1 := hdr ! 1 OR 0x7E, 2 := ucast (drop_bit 8 len),
                     3 := ucast (len AND 0xFF)], 4)
         else (hdr[1 := hdr ! 1 OR ucast len], 2))"

text \<open>\<open>constrain_iov iov maxlen\<close> returns \<open>iov_out\<close>, of \<open>iov_out_cnt\<close> elements.\<close>

fun constrain_iov :: "nat list \<Rightarrow> nat \<Rightarrow> nat list" where
  "constrain_iov [] maxlen = []"
| "constrain_iov (v # iov) maxlen =
     (if maxlen > 0
      then (if v > maxlen then [maxlen] else v # constrain_iov iov (maxlen - v))
      else [])"

text \<open>
  The functions below return the \<open>int\<close> result, the handle and the world.
\<close>

definition send_data_header_left :: "RedsWebSocket \<Rightarrow> world \<Rightarrow> int \<times> RedsWebSocket \<times> world" where
  "send_data_header_left ws w =
     (let (rc, w) = raw_write w
            (size_t_of_int (uint (write_header_len ws) - uint (write_header_pos ws)))
      in if rc \<le> 0 then (rc, ws, w)
         else
           (let ws = ws\<lparr>write_header_pos := write_header_pos ws + word_of_int rc\<rparr>
            in if write_header_pos ws \<ge> write_header_len ws
               then (uint (write_header_len ws),
                     ws\<lparr>write_remainder := fst (extract_length (drop 1 (write_header ws)) 1)\<rparr>,
                     w)
               else (- 1, ws, w\<lparr>errno := EAGAIN\<rparr>)))"

text \<open>A failed \<open>spice_assert\<close> aborts the process: \<open>None\<close>.\<close>

definition send_data_header ::
  "RedsWebSocket \<Rightarrow> world \<Rightarrow> 64 word \<Rightarrow> (int \<times> RedsWebSocket \<times> world) option" where
  "send_data_header ws w len =
     (if \<not> write_header_pos ws \<ge> write_header_len ws then None
      else if \<not> write_remainder ws = 0 then None
      else
        (let (hdr, used) = fill_header (write_header ws) len;
             ws = ws\<lparr>write_header_pos := 0, write_header := hdr,
                     write_header_len := word_of_int used\<rparr>
         in Some (send_data_header_left ws w)))"

definition websocket_ack_close :: "RedsWebSocket \<Rightarrow> world \<Rightarrow> int \<times> RedsWebSocket \<times> world" where
  "websocket_ack_close ws w =
     (let (rc, w) = raw_write w 2
      in if rc = 2 then (rc, ws\<lparr>close_pending := False, closed := True\<rparr>, w)
         else (rc, ws, w))"

definition send_pending_data :: "RedsWebSocket \<Rightarrow> world \<Rightarrow> int \<times> RedsWebSocket \<times> world" where
  "send_pending_data ws w =
     (if write_remainder ws \<noteq> 0 then (1, ws, w)
      else if write_header_pos ws < write_header_len ws
        then (let (rc, ws, w) = send_data_header_left ws w
              in if rc \<le> 0 then (rc, ws, w) else (1, ws, w))
      else if close_pending ws
        then (let (rc, ws, w) = websocket_ack_close ws w
              in if rc \<le> 0 then (rc, ws, w) else (1, ws, w))
      else (1, ws, w))"

definition websocket_writev ::
  "RedsWebSocket \<Rightarrow> world \<Rightarrow> nat list \<Rightarrow> int \<times> RedsWebSocket \<times> world" where
  "websocket_writev ws0 w0 iov =
     (if closed ws0 then (- 1, ws0, w0\<lparr>errno := EPIPE\<rparr>)
      else
        (let (rc, ws, w) = send_pending_data ws0 w0
         in if rc \<le> 0 then (rc, ws, w)
            else if write_remainder ws > 0
              then (let iov_out = constrain_iov iov (unat (write_remainder ws));
                        (rc, w) = raw_writev w iov_out
                    in if rc \<le> 0 then (rc, ws, w)
                       else (rc, ws\<lparr>write_remainder := write_remainder ws - word_of_int rc\<rparr>, w))
            else
              (let len = (of_nat (sum_list iov) :: 64 word);
                   (hdr, used) = fill_header (write_header ws) len;
                   ws = ws\<lparr>write_header_pos := 0, write_header := hdr,
                           write_header_len := word_of_int used\<rparr>;
                   (rc, w) = raw_writev w (unat (write_header_len ws) # iov)
               in if rc \<le> 0 then (rc, ws\<lparr>write_header_len := 0\<rparr>, w)
                  else if rc < uint (write_header_len ws)
                    then (- 1,
                          ws\<lparr>write_header_pos := write_header_len ws - word_of_int rc\<rparr>,
                          w\<lparr>errno := EAGAIN\<rparr>)
                  else
                    (let ws = ws\<lparr>write_header_pos := write_header_len ws\<rparr>;
                         rc = rc - uint (write_header_len ws)
                     in (rc, ws\<lparr>write_remainder := len - word_of_int rc\<rparr>, w)))))"

text \<open>The last statements of \<open>websocket_write\<close> (lines 554 to 558), on the chosen \<open>len\<close>.\<close>

definition websocket_write_data :: "RedsWebSocket \<Rightarrow> world \<Rightarrow> nat \<Rightarrow> int \<times> RedsWebSocket \<times> world" where
  "websocket_write_data ws w len =
     (let (rc, w) = raw_write w len
      in if rc > 0 then (rc, ws\<lparr>write_remainder := write_remainder ws - word_of_int rc\<rparr>, w)
         else (rc, ws, w))"

definition websocket_write ::
  "RedsWebSocket \<Rightarrow> world \<Rightarrow> nat \<Rightarrow> (int \<times> RedsWebSocket \<times> world) option" where
  "websocket_write ws0 w0 len =
     (if closed ws0 then Some (- 1, ws0, w0\<lparr>errno := EPIPE\<rparr>)
      else
        (let (rc, ws, w) = send_pending_data ws0 w0
         in if rc \<le> 0 then Some (rc, ws, w)
            else if write_remainder ws = 0
              then (case send_data_header ws w (of_nat len) of
                      None \<Rightarrow> None
                    | Some (rc, ws, w) \<Rightarrow>
                        if rc \<le> 0 then Some (rc, ws, w)
                        else Some (websocket_write_data ws w (unat (write_remainder ws))))
            else Some (websocket_write_data ws w (min (unat (write_remainder ws)) len))))"

subsection \<open>Reading\<close>

text \<open>\<open>raw_read\<close> stores its bytes into an array from a position on.\<close>

definition store_bytes :: "byte list \<Rightarrow> nat \<Rightarrow> byte list \<Rightarrow> byte list" where
  "store_bytes buf pos d = take pos buf @ d @ drop (pos + length d) buf"

text \<open>
  The functions of the read path return the \<open>int\<close> result, the bytes put into the caller's
  buffer, the handle and the world. \<open>read_error\<close> is the code after the label of that name.
\<close>

definition read_error ::
  "RedsWebSocket \<Rightarrow> world \<Rightarrow> int \<Rightarrow> int \<Rightarrow> byte list \<Rightarrow> int \<times> byte list \<times> RedsWebSocket \<times> world" where
  "read_error ws w n rc out =
     (if n > 0 \<and> rc = - 1 \<and> (errno w = EINTR \<or> errno w = EAGAIN) then (n, out, ws, w)
      else if rc = 0 then (rc, out, ws\<lparr>closed := True\<rparr>, w)
      else (rc, out, ws, w))"

text \<open>What is still pending on the raw stream; the loop below consumes it.\<close>

fun stream_size :: "rd_event list \<Rightarrow> nat" where
  "stream_size [] = 0"
| "stream_size (RdData bs # rest) = Suc (length bs) + stream_size rest"
| "stream_size (RdEof # rest) = Suc (stream_size rest)"
| "stream_size (RdErr e # rest) = Suc (stream_size rest)"

text \<open>
  The \<open>while (size > 0)\<close> loop of \<open>websocket_read\<close>, with the variables \<open>size\<close>, \<open>n\<close> and the
  bytes written through \<open>buf\<close> so far.
\<close>

function websocket_read_loop ::
  "RedsWebSocket \<Rightarrow> world \<Rightarrow> nat \<Rightarrow> int \<Rightarrow> byte list \<Rightarrow> int \<times> byte list \<times> RedsWebSocket \<times> world" where
  "websocket_read_loop ws w sz n out =
     (if \<not> sz > 0 then (n, out, ws, w)
      else if \<not> frame_ready (read_frame ws) then
        (case raw_read w (size_t_of_int (frame_bytes_needed (read_frame ws))) of
           (rc, d, w') \<Rightarrow>
             if rc \<le> 0 then read_error ws w' n rc out
             else
               (case websocket_get_frame_header ((read_frame ws)
                       \<lparr>header := store_bytes (header (read_frame ws))
                                   (nat (header_pos (read_frame ws))) d,
                        header_pos := header_pos (read_frame ws) + rc\<rparr>) of
                  (ok, frame) \<Rightarrow>
                    if \<not> ok
                    then (- 1, out, ws\<lparr>read_frame := frame, closed := True\<rparr>, w'\<lparr>errno := EIO\<rparr>)
                    else websocket_read_loop (ws\<lparr>read_frame := frame\<rparr>) w' sz n out))
      else if ftype (read_frame ws) = 0x8 then
        (case send_pending_data
                (ws\<lparr>close_pending := True, read_frame := websocket_clear_frame\<rparr>) w of
           (rc, ws', w') \<Rightarrow> (0, out, ws', w'))
      else if ftype (read_frame ws) = 0x2 then
        (case raw_read w
                (min sz (unat (expected_len (read_frame ws) - relayed (read_frame ws)))) of
           (rc, d, w') \<Rightarrow>
             if rc \<le> 0 then read_error ws w' n rc out
             else
               (case relay_data d (nat rc) (read_frame ws) of
                  (k, d', frame) \<Rightarrow>
                    websocket_read_loop
                      (ws\<lparr>read_frame := (if relayed frame \<ge> expected_len frame
                                          then websocket_clear_frame else frame)\<rparr>)
                      w' (sz - nat k) (n + k) (out @ take (nat k) d')))
      else websocket_read_loop (ws\<lparr>read_frame := websocket_clear_frame\<rparr>) w sz n out)"
  by pat_completeness auto
termination
proof -
  have dec: "stream_size (inbound w') < stream_size (inbound w)"
    if "raw_read w k = (rc, d, w')" and "\<not> rc \<le> 0" for w k rc d w'
  proof (cases "inbound w")
    case Nil
    with that show ?thesis by (simp add: raw_read_def)
  next
    case (Cons ev rest)
    with that show ?thesis
      by (cases ev) (auto simp add: raw_read_def Let_def split: if_splits)
  qed
  show ?thesis
    by (relation "measure (\<lambda>(ws, w, sz, n, out).
            2 * stream_size (inbound w) + (if frame_ready (read_frame ws) then 1 else 0))")
       (auto simp add: websocket_clear_frame_def dest: dec dec [OF sym])
qed

declare websocket_read_loop.simps [simp del]

definition websocket_read ::
  "RedsWebSocket \<Rightarrow> world \<Rightarrow> nat \<Rightarrow> int \<times> byte list \<times> RedsWebSocket \<times> world" where
  "websocket_read ws w sz =
     (if closed ws \<or> close_pending ws
      then (case raw_read w 128 of (rc, discard, w') \<Rightarrow> (0, [], ws, w'))
      else websocket_read_loop ws w sz 0 [])"

subsection \<open>The opening handshake\<close>

text \<open>
  The C library and GLib functions that the handshake calls, on C strings without their
  terminating NUL: \<open>tolower\<close> and \<open>isspace\<close> in the C locale, \<open>strcasestr\<close> (the result is
  the rest of the haystack from the first match on), \<open>g_str_has_suffix\<close>, \<open>strchr\<close>
  (the length of the part before the character) and \<open>g_strstrip\<close>, which strips what
  \<open>g_ascii_isspace\<close> accepts: the white space of \<open>isspace\<close> without the vertical tab.
\<close>

definition tolower_c :: "char \<Rightarrow> char" where
  "tolower_c c =
     (let n = (of_char c :: nat) in if 65 \<le> n \<and> n \<le> 90 then char_of (n + 32) else c)"

definition isspace_c :: "char \<Rightarrow> bool" where
  "isspace_c c = (c \<in> set [CHR 0x20, CHR 0x09, CHR 0x0A, CHR 0x0B, CHR 0x0C, CHR 0x0D])"

fun prefix_nocase :: "string \<Rightarrow> string \<Rightarrow> bool" where
  "prefix_nocase [] haystack = True"
| "prefix_nocase (n # needle) [] = False"
| "prefix_nocase (n # needle) (h # haystack) =
     (tolower_c n = tolower_c h \<and> prefix_nocase needle haystack)"

fun strcasestr :: "string \<Rightarrow> string \<Rightarrow> string option" where
  "strcasestr [] needle = (if needle = [] then Some [] else None)"
| "strcasestr (h # haystack) needle =
     (if prefix_nocase needle (h # haystack) then Some (h # haystack)
      else strcasestr haystack needle)"

definition g_str_has_suffix :: "string \<Rightarrow> string \<Rightarrow> bool" where
  "g_str_has_suffix str suffix =
     (length suffix \<le> length str \<and> drop (length str - length suffix) str = suffix)"

definition strchr :: "string \<Rightarrow> char \<Rightarrow> nat option" where
  "strchr str c = (if c \<in> set str then Some (length (takeWhile (\<lambda>x. x \<noteq> c) str)) else None)"

definition g_ascii_isspace :: "char \<Rightarrow> bool" where
  "g_ascii_isspace c = (c \<in> set [CHR 0x20, CHR 0x09, CHR 0x0A, CHR 0x0C, CHR 0x0D])"

definition g_strstrip :: "string \<Rightarrow> string" where
  "g_strstrip str = rev (dropWhile g_ascii_isspace (rev (dropWhile g_ascii_isspace str)))"

text \<open>
  \<open>sscanf(str, " binary %n", &binary_pos)\<close> with \<open>binary_pos\<close> set to -1 before: white
  space is skipped, the word has to follow, white space is skipped again and \<open>%n\<close> stores
  the number of characters read so far. Nothing is stored when the word does not match.
\<close>

definition sscanf_binary_n :: "string \<Rightarrow> int" where
  "sscanf_binary_n str =
     (let s1 = dropWhile isspace_c str
      in if take 6 s1 = ''binary''
         then int (length str - length (dropWhile isspace_c (drop 6 s1)))
         else - 1)"

definition CRLF :: string where
  "CRLF = [CHR 0x0D, CHR 0x0A]"

definition find_str :: "string \<Rightarrow> string \<Rightarrow> string option" where
  "find_str haystack needle =
     (case strcasestr haystack needle of
        Some s \<Rightarrow> Some (drop (length needle) s)
      | None \<Rightarrow> None)"

definition websocket_is_start :: "string \<Rightarrow> bool" where
  "websocket_is_start buf =
     (let protocol = find_str buf (CHR 0x0A # ''Sec-WebSocket-Protocol:'');
          key = find_str buf (CHR 0x0A # ''Sec-WebSocket-Key:'')
      in if take 4 buf \<noteq> ''GET '' \<or> protocol = None \<or> key = None \<or>
            \<not> g_str_has_suffix buf (CRLF @ CRLF) then False
         else (let binary_pos = sscanf_binary_n (the protocol)
               in if binary_pos \<le> 0 then False else True))"

text \<open>
  The SHA-1 digest of the key followed by the GUID, in base64, is computed by GLib. It is
  the parameter \<open>sha1_base64\<close> of the functions that build the reply.
\<close>

definition WEBSOCKET_GUID :: string where
  "WEBSOCKET_GUID = ''258EAFA5-E914-47DA-95CA-C5AB0DC85B11''"

definition generate_reply_key :: "(string \<Rightarrow> string) \<Rightarrow> string \<Rightarrow> string option" where
  "generate_reply_key sha1_base64 buf =
     (case find_str buf (CHR 0x0A # ''Sec-WebSocket-Key:'') of
        None \<Rightarrow> None
      | Some key \<Rightarrow>
          (case strchr key (CHR 0x0D) of
             None \<Rightarrow> None
           | Some p \<Rightarrow> Some (sha1_base64 (g_strstrip (take p key) @ WEBSOCKET_GUID))))"

text \<open>\<open>sprintf\<close> of glibc prints a NULL string as \<open>(null)\<close>.\<close>

definition websocket_create_reply :: "(string \<Rightarrow> string) \<Rightarrow> string \<Rightarrow> string" where
  "websocket_create_reply sha1_base64 buf =
     (let key = generate_reply_key sha1_base64 buf
      in ''HTTP/1.1 101 Switching Protocols'' @ CRLF @
         ''Upgrade: websocket'' @ CRLF @
         ''Connection: Upgrade'' @ CRLF @
         ''Sec-WebSocket-Accept: '' @ (case key of None \<Rightarrow> ''(null)'' | Some k \<Rightarrow> k) @ CRLF @
         ''Sec-WebSocket-Protocol: binary'' @ CRLF @ CRLF)"

text \<open>\<open>g_new0\<close>: a handle with every field zero.\<close>

definition new_RedsWebSocket :: RedsWebSocket where
  "new_RedsWebSocket =
     \<lparr>closed = False, read_frame = websocket_clear_frame, write_remainder = 0,
      write_header = replicate 14 0, write_header_pos = 0, write_header_len = 0,
      close_pending = False\<rparr>"

text \<open>
  \<open>websocket_new sha1_base64 buf w\<close>: \<open>buf\<close> holds the \<open>len\<close> bytes already received, fewer
  than 4096 (beyond that the copy overruns \<open>rbuf\<close>). The result is the handle, or \<open>None\<close>
  for NULL, and the world. \<open>rbuf\<close> is read as a C string: up to its first NUL.
\<close>

definition websocket_new ::
  "(string \<Rightarrow> string) \<Rightarrow> string \<Rightarrow> world \<Rightarrow> RedsWebSocket option \<times> world" where
  "websocket_new sha1_base64 buf w =
     (let len = length buf;
          (rc, d, w) = raw_read w (size_t_of_int (4096 - int len - 1))
      in if rc \<le> 0 then (None, w)
         else
           (let rbuf = takeWhile (\<lambda>c. c \<noteq> CHR 0x00) (buf @ map (\<lambda>b. char_of (unat b)) d)
            in if \<not> websocket_is_start rbuf then (None, w)
               else
                 (let outbuf = websocket_create_reply sha1_base64 rbuf;
                      (rc, w) = raw_write w (length outbuf)
                  in if rc \<noteq> int (length outbuf) then (None, w)
                     else (Some new_RedsWebSocket, w))))"

subsection \<open>Notions used to state the properties\<close>

text \<open>The bytes that the raw stream holds before its first end of stream or error.\<close>

fun stream_bytes :: "rd_event list \<Rightarrow> byte list" where
  "stream_bytes (RdData bs # rest) = bs @ stream_bytes rest"
| "stream_bytes evs = []"

text \<open>
  The first \<open>n\<close> bytes that the raw stream delivers, with the stream that is left after
  them, whatever the chunks they arrive in. There is no result when the stream ends, fails
  or would block before \<open>n\<close> bytes have arrived.
\<close>

fun stream_take :: "nat \<Rightarrow> rd_event list \<Rightarrow> (byte list \<times> rd_event list) option" where
  "stream_take n [] = (if n = 0 then Some ([], []) else None)"
| "stream_take n (ev # rest) =
     (if n = 0 then Some ([], ev # rest)
      else (case ev of
              RdData bs \<Rightarrow>
                if bs = [] then None
                else if n < length bs then Some (take n bs, RdData (drop n bs) # rest)
                else (case stream_take (n - length bs) rest of
                        None \<Rightarrow> None
                      | Some (d, evs) \<Rightarrow> Some (bs @ d, evs))
            | RdEof \<Rightarrow> None
            | RdErr e \<Rightarrow> None))"

text \<open>
  The size of a frame header whose second byte is \<open>b1\<close>, after RFC 6455: two bytes, the
  extended length, the mask.
\<close>

definition websocket_header_len :: "byte \<Rightarrow> nat" where
  "websocket_header_len b1 =
     2 + (if b1 AND 0x7F = 0x7F then 8 else if b1 AND 0x7F = 0x7E then 2 else 0)
       + (if b1 AND 0x80 \<noteq> 0 then 4 else 0)"

text \<open>
  The frame of the handle once the bytes \<open>hdr\<close> of a header have been stored into the
  cleared frame.
\<close>

definition frame_with_header :: "byte list \<Rightarrow> websocket_frame_t" where
  "frame_with_header hdr =
     websocket_clear_frame\<lparr>header := store_bytes (replicate 14 0) 0 hdr,
                            header_pos := int (length hdr)\<rparr>"

text \<open>
  The four violations that the specification lists for an inbound header: a reserved bit,
  a control frame without FIN, a data opcode from 3 to 7, a control frame with a length of
  126 or more.
\<close>

definition listed_violation :: "byte list \<Rightarrow> bool" where
  "listed_violation hdr =
     (let opcode = hdr ! 0 AND 0x0F; fin = (hdr ! 0 AND 0x80 \<noteq> 0)
      in hdr ! 0 AND 0x70 \<noteq> 0
         \<or> (\<not> fin \<and> opcode \<ge> 0x8)
         \<or> (3 \<le> opcode \<and> opcode \<le> 7)
         \<or> (opcode \<ge> 0x8 \<and> fst (extract_length (drop 1 hdr) 1) \<ge> 126))"

text \<open>The same with the reserved control opcodes, from 0xB to 0xF.\<close>

definition protocol_fatal :: "byte list \<Rightarrow> bool" where
  "protocol_fatal hdr =
     (listed_violation hdr \<or> (0xB \<le> hdr ! 0 AND 0x0F \<and> hdr ! 0 AND 0x0F \<le> 0xF))"

text \<open>
  A world respects the contract of \<open>write\<close> when no call of \<open>raw_write\<close> or \<open>raw_writev\<close>
  made so far has returned more than the number of bytes it was offered.
\<close>

definition respects_contract :: "world \<Rightarrow> bool" where
  "respects_contract w = list_all (\<lambda>(offered, r). r \<le> int offered) (wr_log w)"



subsection \<open>Concrete values used to exercise the theorems\<close>

definition bytes_of :: "string \<Rightarrow> byte list" where
  "bytes_of str = map (\<lambda>c. of_nat (of_char c)) str"

definition a_world :: "rd_event list \<Rightarrow> (int \<times> errno_t) list \<Rightarrow> world" where
  "a_world i r = \<lparr>errno = ECONNRESET, inbound = i, wr_results = r, wr_log = []\<rparr>"

text \<open>A stand-in for the digest: 28 characters, the size of a SHA-1 digest in base64.\<close>

definition a_digest :: "string \<Rightarrow> string" where
  "a_digest str = replicate 28 (CHR ''A'')"

definition request :: "string \<Rightarrow> string" where
  "request protocol =
     ''GET / HTTP/1.1'' @ CRLF @ ''Sec-WebSocket-Key: a2V5'' @ CRLF @
     ''Sec-WebSocket-Protocol: '' @ protocol @ CRLF @ CRLF"

text \<open>The masked frame of the specification, its header and its payload.\<close>

definition hello_header :: "byte list" where
  "hello_header = [0x82, 0x85, 0x37, 0xfa, 0x21, 0x3d]"

definition hello_payload :: "byte list" where
  "hello_payload = [0x7f, 0x9f, 0x4d, 0x51, 0x58]"

text \<open>
  The relation between the outbound header cursor and the body still owed, in the form
  that every operation preserves.
\<close>

definition write_inv :: "RedsWebSocket \<Rightarrow> bool" where
  "write_inv ws =
     (write_header_pos ws \<le> write_header_len ws \<and>
      (write_remainder ws > 0 \<longrightarrow> write_header_pos ws = write_header_len ws))"

text \<open>
  A handle two bytes into the payload of the masked frame; a handle after a write whose
  header the callback reported as three bytes written out of two; a handle after a write
  that sent its header and one byte of five.
\<close>

definition handle_mid_frame :: RedsWebSocket where
  "handle_mid_frame =
     new_RedsWebSocket\<lparr>read_frame := (frame_with_header hello_header)
       \<lparr>ftype := 0x2, frame_ready := True, masked := True,
        fmask := [0x37, 0xfa, 0x21, 0x3d], relayed := 2, expected_len := 5\<rparr>\<rparr>"



section \<open>Properties of red-channel.c\<close>

text \<open>
  C1 (as amended). On a channel with no connected channel-client the aggregate queries
  return: all_blocked false (the function returns FALSE at once for an empty list),
  any_blocked false, no_item_being_sent true, min, max and sum of the pipe sizes 0,
  get_first_socket -1, is_connected false, and both remote-capability tests true for
  every capability.
\<close>

theorem C1_aggregate_emptiness:
  assumes "clients c = []"
  shows "red_channel_all_blocked (Some c) = False
       \<and> red_channel_any_blocked (Some c) = False
       \<and> red_channel_no_item_being_sent (Some c) = True
       \<and> red_channel_min_pipe_size (Some c) = 0
       \<and> red_channel_max_pipe_size (Some c) = 0
       \<and> red_channel_sum_pipes_size (Some c) = 0
       \<and> red_channel_get_first_socket (Some c) = - 1
       \<and> red_channel_is_connected (Some c) = False
       \<and> red_channel_test_remote_common_cap (Some c) cap = True
       \<and> red_channel_test_remote_cap (Some c) cap = True"
  using assms
  by (simp add: red_channel_all_blocked_def red_channel_any_blocked_def
      red_channel_no_item_being_sent_def red_channel_min_pipe_size_def
      red_channel_max_pipe_size_def red_channel_sum_pipes_size_def
      red_channel_get_first_socket_def red_channel_is_connected_def
      red_channel_test_remote_common_cap_def red_channel_test_remote_cap_def
      FOREACH_CLIENT_def)

theorem C1_aggregate_emptiness_witness:
  "clients empty_channel = []
   \<and> red_channel_all_blocked (Some empty_channel) = False
   \<and> red_channel_min_pipe_size (Some empty_channel) = 0
   \<and> red_channel_get_first_socket (Some empty_channel) = - 1
   \<and> red_channel_test_remote_cap (Some empty_channel) 7 = True"
proof -
  have e: "clients empty_channel = []"
    by (simp add: empty_channel_def)
  from C1_aggregate_emptiness [OF e, of 7] e show ?thesis
    by simp
qed

text \<open>
  C1 as stated claims all_blocked = true on the empty channel; the code answers false.
\<close>

theorem C1_all_blocked_counterexample:
  "clients empty_channel = [] \<and> red_channel_all_blocked (Some empty_channel) \<noteq> True"
  by (simp add: empty_channel_def red_channel_all_blocked_def)

text \<open>
  C8 (as amended). Construction succeeds exactly when the subclass provides config_socket,
  on_disconnect, alloc_recv_buf and release_recv_buf, and provides handle_migrate_data
  whenever migration_flags request data transfer. A subclass may provide
  handle_migrate_data without the flag; in every other case construction aborts.
\<close>

theorem C8_constructed_iff:
  "(red_channel_constructed M klass self \<noteq> None) =
     (config_socket klass \<noteq> NULL \<and> on_disconnect klass \<noteq> NULL \<and>
      alloc_recv_buf klass \<noteq> NULL \<and> release_recv_buf klass \<noteq> NULL \<and>
      (migration_flags self AND M \<noteq> 0 \<longrightarrow> handle_migrate_data klass \<noteq> NULL))"
  by (auto simp add: red_channel_constructed_def)

theorem C8_constructed_iff_witness:
  "red_channel_constructed 2 full_class (empty_channel\<lparr>migration_flags := 2\<rparr>) \<noteq> None
   \<and> migration_flags (empty_channel\<lparr>migration_flags := 2\<rparr>) AND 2 \<noteq> 0
   \<and> handle_migrate_data full_class \<noteq> NULL
   \<and> red_channel_constructed 2 (full_class\<lparr>handle_migrate_data := NULL\<rparr>)
        (empty_channel\<lparr>migration_flags := 2\<rparr>) = None"
  using C8_constructed_iff [of 2 full_class "empty_channel\<lparr>migration_flags := 2\<rparr>"]
    C8_constructed_iff [of 2 "full_class\<lparr>handle_migrate_data := NULL\<rparr>"
      "empty_channel\<lparr>migration_flags := 2\<rparr>"]
  by (simp add: full_class_def empty_channel_def)

text \<open>
  C8 as stated requires handle_migrate_data if and only if the flags request data
  transfer. A class that provides the handler on a channel whose flags are 0 is
  constructed all the same.
\<close>

theorem C8_iff_counterexample:
  "handle_migrate_data full_class \<noteq> NULL
   \<and> migration_flags empty_channel AND 2 = 0
   \<and> red_channel_constructed 2 full_class empty_channel \<noteq> None"
  by (simp add: full_class_def empty_channel_def red_channel_constructed_def)

text \<open>
  C9. Each call of red_client_seamless_migration_done_for_channel decrements
  num_migrated_channels between taking and releasing the client lock, and returns true
  if and only if the counter is zero after the decrement. Exactly then both
  during_target_migrate and seamless_migrate are cleared and the main dispatcher is
  notified once, inside the lock; otherwise the result is false, both flags are
  unchanged and nothing is notified.
\<close>

theorem C9_seamless_migration_done:
  assumes "red_client_seamless_migration_done_for_channel client = (ret, client', events)"
  shows "num_migrated_channels client' = num_migrated_channels client - 1
       \<and> (ret = (num_migrated_channels client' = 0))
       \<and> (ret \<longrightarrow> \<not> during_target_migrate client' \<and> \<not> seamless_migrate client'
                  \<and> events = [Lock, Notify_dst_complete, Unlock])
       \<and> (\<not> ret \<longrightarrow> during_target_migrate client' = during_target_migrate client
                  \<and> seamless_migrate client' = seamless_migrate client
                  \<and> events = [Lock, Unlock])"
  using assms
  by (auto simp add: red_client_seamless_migration_done_for_channel_def Let_def
      split: if_splits)

theorem C9_seamless_migration_done_witness:
  "red_client_seamless_migration_done_for_channel (migrating_client 1) =
     (True, \<lparr>during_target_migrate = False, seamless_migrate = False,
             num_migrated_channels = 0\<rparr>, [Lock, Notify_dst_complete, Unlock])
   \<and> red_client_seamless_migration_done_for_channel (migrating_client 3) =
     (False, migrating_client 2, [Lock, Unlock])"
proof -
  have a: "red_client_seamless_migration_done_for_channel (migrating_client 1) =
     (True, \<lparr>during_target_migrate = False, seamless_migrate = False,
             num_migrated_channels = 0\<rparr>, [Lock, Notify_dst_complete, Unlock])"
    by (simp add: red_client_seamless_migration_done_for_channel_def migrating_client_def)
  have b: "red_client_seamless_migration_done_for_channel (migrating_client 3) =
     (False, migrating_client 2, [Lock, Unlock])"
    by (simp add: red_client_seamless_migration_done_for_channel_def migrating_client_def)
  from C9_seamless_migration_done [OF a] C9_seamless_migration_done [OF b] a b
  show ?thesis by simp
qed

section \<open>Properties of websocket.c\<close>

subsection \<open>Evaluation of the model on concrete inputs\<close>

lemma list_update_Cons_numeral:
  "(x # xs)[numeral k := v] = x # xs[pred_numeral k := v]"
  by (simp add: numeral_eq_Suc)

lemma replicate_numeral: "replicate (numeral k) x = x # replicate (pred_numeral k) x"
  by (simp add: numeral_eq_Suc)

lemmas list_eval = list_update_Cons_numeral replicate_numeral

lemmas read_eval = websocket_read_def websocket_read_loop.simps raw_read_def INT_MAX_def
  size_t_of_int_def frame_bytes_needed_def websocket_get_frame_header_def store_bytes_def
  extract_length_def extract_length_loop.simps int_shl_def relay_data_def read_error_def
  websocket_clear_frame_def new_RedsWebSocket_def a_world_def frame_with_header_def Let_def
  list_eval


subsection \<open>Frame header lengths\<close>

text \<open>
  Whatever \<open>int_shl\<close> yields for a count of 32 or more, the loop of \<open>extract_length\<close>
  only ever combines \<open>int\<close> values, each converted with its sign. Its result is a
  sign-extended 32-bit value, so a length of 127 in the second byte never decodes to
  \<open>2 ^ 32\<close>. The proofs do not unfold \<open>int_shl\<close>.
\<close>

lemma scast_or_int: "(scast (a OR b :: 32 word) :: 64 word) = scast a OR scast b"
  by (rule bit_word_eqI) (auto simp add: bit_simps)

lemma extract_length_loop_int:
  "acc = scast (v0 :: 32 word) \<Longrightarrow> \<exists>v :: 32 word. extract_length_loop buf i acc = scast v"
proof (induction buf i acc arbitrary: v0 rule: extract_length_loop.induct)
  case (1 buf i outlen)
  show ?case
  proof (cases "0 \<le> i")
    case True
    have "outlen OR scast (int_shl (ucast (buf ! 0)) (nat i)) =
          (scast (v0 OR int_shl (ucast (buf ! 0)) (nat i)) :: 64 word)"
      by (simp add: scast_or_int "1.prems")
    from "1.IH" [OF True this] True show ?thesis
      by (subst extract_length_loop.simps) simp
  next
    case False
    with "1.prems" show ?thesis
      by (subst extract_length_loop.simps) auto
  qed
qed

lemma scast_int_not_2_32: "(scast (v :: 32 word) :: 64 word) \<noteq> 2 ^ 32"
proof
  assume a: "(scast v :: 64 word) = 2 ^ 32"
  have "bit (scast v :: 64 word) 32 = bit (scast v :: 64 word) 33"
    by (simp add: bit_simps)
  with a show False
    by (simp add: bit_simps)
qed

lemma extract_length_64_not_2_32:
  "buf ! 0 AND 0x7F = 0x7F \<Longrightarrow> fst (extract_length buf used) \<noteq> 2 ^ 32"
proof -
  assume "buf ! 0 AND 0x7F = 0x7F"
  then have "fst (extract_length buf used) = extract_length_loop (drop 1 buf) 56 (scast (0 :: 32 word))"
    by (simp add: extract_length_def)
  moreover obtain v :: "32 word"
    where "extract_length_loop (drop 1 buf) 56 (scast (0 :: 32 word)) = scast v"
    using extract_length_loop_int [OF refl] by blast
  ultimately show ?thesis
    using scast_int_not_2_32 [of v] by simp
qed

text \<open>
  C2. The claim is that for every length L in 0, 1, 125, 126, 65535, 65536, 2^32 and
  2^40, fill_header followed by extract_length gives L back, with 2, 4 or 10 header bytes.
  The header sizes are as claimed, but the lengths 2^32 and 2^40 do not come back: for
  2^32 the header is 82 7F 00 00 00 01 00 00 00 00 and extract_length returns 1; for 2^40
  it returns 256. The byte is shifted as an \<open>int\<close>, where fill_header wrote 64 bits.
\<close>

theorem C2_length_2_32_not_recovered:
  "fill_header (replicate 14 0) (2 ^ 32) = ([0x82, 0x7F, 0, 0, 0, 1, 0, 0, 0, 0, 0, 0, 0, 0], 10)
   \<and> extract_length (drop 1 (fst (fill_header (replicate 14 0) (2 ^ 32)))) 1 = (1, 10)
   \<and> extract_length (drop 1 (fst (fill_header (replicate 14 0) (2 ^ 40)))) 1 = (256, 10)"
  by (simp add: fill_header_def fill_header_loop.simps extract_length_def
      extract_length_loop.simps int_shl_def list_eval)

text \<open>
  The six smaller lengths of the claim do come back, with the header sizes of RFC 6455.
\<close>

lemma header_round_trip_small:
  "L \<in> set [0, 1, 125, 126, 65535, 65536] \<Longrightarrow>
   extract_length (drop 1 (fst (fill_header (replicate 14 0) L))) 1 =
     (L, snd (fill_header (replicate 14 0) L))
   \<and> snd (fill_header (replicate 14 0) L) = (if L < 126 then 2 else if L \<le> 65535 then 4 else 10)"
  by (auto simp add: fill_header_def fill_header_loop.simps extract_length_def
      extract_length_loop.simps int_shl_def list_eval Let_def word_le_nat_alt word_less_nat_alt)

subsection \<open>The opening handshake\<close>

lemma chars_of_bytes_of: "map (\<lambda>b. char_of (unat b)) (bytes_of str) = str"
proof -
  have "char_of (unat (of_nat (of_char c) :: byte)) = c" for c :: char
  proof -
    have "(of_char c :: nat) < 256" by (cases c) simp
    then have "unat (of_nat (of_char c) :: byte) = of_char c"
      by (simp add: unat_of_nat)
    then show ?thesis by simp
  qed
  then show ?thesis
    by (simp add: bytes_of_def comp_def map_idI)
qed

lemma length_bytes_of: "length (bytes_of str) = length str"
  by (simp add: bytes_of_def)

lemma is_start_binaryX: "websocket_is_start (request ''binaryX'')"
  by (simp add: websocket_is_start_def find_str_def g_str_has_suffix_def sscanf_binary_n_def
      isspace_c_def g_ascii_isspace_def tolower_c_def CRLF_def request_def Let_def)

lemma no_NUL_binaryX:
  "takeWhile (\<lambda>c. c \<noteq> CHR 0x00) (request ''binaryX'') = request ''binaryX''"
  by (simp add: request_def CRLF_def)

lemma length_reply: "length (websocket_create_reply a_digest (request ''binaryX'')) = 161"
  by (simp add: websocket_create_reply_def a_digest_def CRLF_def generate_reply_key_def
      find_str_def tolower_c_def strchr_def request_def)

lemma length_request_binaryX: "length (request ''binaryX'') = 76"
  by (simp add: request_def CRLF_def)

text \<open>
  C3. The claim is that websocket_new returns a handle only for a buffer that begins
  with "GET ", has the Sec-WebSocket-Key header and a Sec-WebSocket-Protocol header whose
  value, stripped of spaces, is exactly "binary", and ends with an empty line; and that it
  returns nothing for any other buffer. The code compares the protocol value with
  \<open>sscanf\<close> and the format " binary %n", which stops looking after the word: the
  request below carries the value "binaryX" and a handle is returned.
\<close>

theorem C3_longer_protocol_accepted:
  "g_strstrip '' binaryX'' \<noteq> ''binary''
   \<and> websocket_new a_digest (take 16 (request ''binaryX''))
       (a_world [RdData (bytes_of (drop 16 (request ''binaryX'')))] [(161, EIO)]) =
     (Some new_RedsWebSocket,
      \<lparr>errno = ECONNRESET, inbound = [], wr_results = [], wr_log = [(161, 161)]\<rparr>)"
proof -
  have a: "g_strstrip '' binaryX'' \<noteq> ''binary''"
    by (simp add: g_strstrip_def g_ascii_isspace_def)
  have b: "websocket_new a_digest (take 16 (request ''binaryX''))
       (a_world [RdData (bytes_of (drop 16 (request ''binaryX'')))] [(161, EIO)]) =
     (Some new_RedsWebSocket,
      \<lparr>errno = ECONNRESET, inbound = [], wr_results = [], wr_log = [(161, 161)]\<rparr>)"
    by (simp add: websocket_new_def raw_read_def raw_write_def a_world_def INT_MAX_def
        size_t_of_int_def Let_def length_bytes_of length_request_binaryX chars_of_bytes_of
        no_NUL_binaryX is_start_binaryX length_reply)
  from a b show ?thesis by simp
qed

subsection \<open>Validation of inbound headers\<close>

text \<open>An opcode is one of sixteen values.\<close>

lemma opcode_cases:
  fixes y :: byte
  assumes "y \<le> 15"
  shows "y \<in> set [0, 1, 2, 3, 4, 5, 6, 7, 8, 9, 10, 11, 12, 13, 14, 15]"
proof -
  from assms have "unat y < 16"
    by (simp add: word_le_nat_alt)
  then have "unat y \<in> set [0, 1, 2, 3, 4, 5, 6, 7, 8, 9, 10, 11, 12, 13, 14, 15]"
    by (simp only: set_simps insert_iff empty_iff) arith
  then have "of_nat (unat y) \<in> (of_nat ` set [0, 1, 2, 3, 4, 5, 6, 7, 8, 9, 10, 11, 12, 13, 14, 15] :: byte set)"
    by (rule imageI)
  then show ?thesis by simp
qed

lemma opcode_le: "(b :: byte) AND 0x0F \<le> 15"
  by (rule word_and_le1)

lemma opcode_control: "(y :: byte) \<le> 15 \<Longrightarrow> (y AND 0x8 \<noteq> 0) = (8 \<le> y)"
  by (drule opcode_cases) (auto simp add: word_le_nat_alt)

lemma opcode_unknown:
  "(y :: byte) \<le> 15 \<Longrightarrow> (y AND NOT 0x8 \<ge> 3) = (3 \<le> y \<and> y \<le> 7 \<or> 0xB \<le> y \<and> y \<le> 0xF)"
  by (drule opcode_cases) (auto simp add: word_le_nat_alt)

lemma ucast_byte_eq_iff: "((ucast (x :: byte) :: 64 word) = ucast (y :: byte)) = (x = y)"
proof -
  have "uint (ucast x :: 64 word) = uint x" "uint (ucast y :: 64 word) = uint y"
    by (simp_all add: uint_up_ucast is_up)
  then show ?thesis
    by (metis word_uint_eq_iff)
qed

lemma length_field_127: "((ucast (x :: byte) :: 64 word) = 0x7F) = (x = 0x7F)"
  using ucast_byte_eq_iff [of x "0x7F"] by simp

lemma length_field_126: "((ucast (x :: byte) :: 64 word) = 0x7E) = (x = 0x7E)"
  using ucast_byte_eq_iff [of x "0x7E"] by simp

lemma extract_length_loop_append:
  "0 \<le> i \<Longrightarrow> nat (i div 8) < length buf \<Longrightarrow>
   extract_length_loop (buf @ pad) i acc = extract_length_loop buf i acc"
proof (induction buf i acc rule: extract_length_loop.induct)
  case (1 buf i outlen)
  from "1.prems" have ne: "buf \<noteq> []" by auto
  then have hd: "(buf @ pad) ! 0 = buf ! 0" and dr: "drop 1 (buf @ pad) = drop 1 buf @ pad"
    by (cases buf; simp)+
  show ?case
  proof (cases "0 \<le> i - 8")
    case True
    with "1.prems" have "nat ((i - 8) div 8) < length (drop 1 buf)"
      by simp
    with "1.IH" "1.prems" True
    have "extract_length_loop (drop 1 buf @ pad) (i - 8)
            (outlen OR scast (int_shl (ucast (buf ! 0)) (nat i))) =
          extract_length_loop (drop 1 buf) (i - 8)
            (outlen OR scast (int_shl (ucast (buf ! 0)) (nat i)))"
      by simp
    with "1.prems" hd dr show ?thesis
      by (subst (1 2) extract_length_loop.simps) simp
  next
    case False
    with "1.prems" hd dr show ?thesis
      by (simp add: extract_length_loop.simps [of _ i] extract_length_loop.simps [of _ "i - 8"])
  qed
qed

lemma extract_length_append:
  assumes "2 \<le> length hdr" and "length hdr = websocket_header_len (hdr ! 1)"
  shows "extract_length (drop (Suc 0) (hdr @ pad)) used = extract_length (drop (Suc 0) hdr) used"
proof -
  define D where "D = drop (Suc 0) hdr"
  from assms have a: "hdr ! 1 AND 0x7F = 0x7F \<Longrightarrow> 10 \<le> length hdr"
    and b: "hdr ! 1 AND 0x7F = 0x7E \<Longrightarrow> 4 \<le> length hdr"
    by (simp_all add: websocket_header_len_def)
  have d: "drop (Suc 0) (hdr @ pad) = D @ pad"
    using assms(1) by (simp add: D_def)
  have n0: "(D @ pad) ! 0 = D ! 0" and n0': "D ! 0 = hdr ! 1"
    using assms(1) by (simp_all add: nth_append D_def)
  have lenD: "length D = length hdr - 1"
    by (simp add: D_def)
  have "extract_length (D @ pad) used = extract_length D used"
  proof (cases "hdr ! 1 AND 0x7F = 0x7F")
    case True
    from a [OF True] lenD have "nat (56 div 8) < length (drop 1 D)"
      by simp
    then have "extract_length_loop (drop 1 D @ pad) 56 0 = extract_length_loop (drop 1 D) 56 0"
      by (intro extract_length_loop_append) simp_all
    moreover have "drop 1 (D @ pad) = drop 1 D @ pad"
      using a [OF True] lenD by simp
    ultimately show ?thesis
      unfolding extract_length_def n0 n0' using True
      by (simp add: Let_def length_field_127)
  next
    case False
    show ?thesis
    proof (cases "hdr ! 1 AND 0x7F = 0x7E")
      case True
      from b [OF True] lenD have "1 < length D" "2 < length D"
        by simp_all
      then have "(D @ pad) ! 1 = D ! 1" "(D @ pad) ! 2 = D ! 2"
        by (simp_all only: nth_append if_True)
      then show ?thesis
        unfolding extract_length_def n0 n0' using True
        by (simp add: Let_def length_field_127 length_field_126)
    next
      case False
      with \<open>hdr ! 1 AND 0x7F \<noteq> 0x7F\<close> show ?thesis
        unfolding extract_length_def n0 n0'
        by (simp add: Let_def length_field_127 length_field_126)
    qed
  qed
  then show ?thesis
    unfolding d D_def [symmetric] .
qed

lemma header_len_le: "websocket_header_len b \<le> 14"
  by (simp add: websocket_header_len_def)

lemma header_frame_with_header:
  "length hdr \<le> 14 \<Longrightarrow>
   header (frame_with_header hdr) = hdr @ replicate (14 - length hdr) 0"
  by (simp add: frame_with_header_def store_bytes_def)

lemma frame_bytes_needed_complete:
  assumes "2 \<le> length hdr" and "length hdr = websocket_header_len (hdr ! 1)"
  shows "frame_bytes_needed (frame_with_header hdr) = 0"
proof -
  have le: "length hdr \<le> 14"
    using assms(2) header_len_le by simp
  have h1: "header (frame_with_header hdr) ! 1 = hdr ! 1"
    using assms(1) by (simp add: header_frame_with_header [OF le] nth_append)
  have pos: "header_pos (frame_with_header hdr) = int (length hdr)"
    by (simp add: frame_with_header_def)
  show ?thesis
    using assms unfolding frame_bytes_needed_def h1 pos
    by (simp add: websocket_header_len_def Let_def)
qed

lemma get_frame_header_complete:
  assumes "2 \<le> length hdr" and "length hdr = websocket_header_len (hdr ! 1)"
  shows "fst (websocket_get_frame_header (frame_with_header hdr)) = (\<not> protocol_fatal hdr)"
    and "\<not> protocol_fatal hdr \<Longrightarrow>
         frame_ready (snd (websocket_get_frame_header (frame_with_header hdr)))"
proof -
  define F where "F = frame_with_header hdr"
  define y where "y = hdr ! 0 AND 0x0F"
  have le: "length hdr \<le> 14"
    using assms(2) header_len_le by simp
  have hF: "header F = hdr @ replicate (14 - length hdr) 0"
    unfolding F_def by (rule header_frame_with_header [OF le])
  have h0: "header F ! 0 = hdr ! 0"
    using assms(1) by (cases hdr) (simp_all add: hF)
  have need: "frame_bytes_needed F = 0"
    unfolding F_def by (rule frame_bytes_needed_complete [OF assms])
  have ext: "extract_length (drop (Suc 0) (header F)) 1 = extract_length (drop (Suc 0) hdr) 1"
    unfolding hF by (rule extract_length_append [OF assms])
  have y: "y \<le> 15"
    unfolding y_def by (rule opcode_le)
  note oc = opcode_control [OF y] opcode_unknown [OF y]
  have promoted: "(2 :: byte) AND 8 = 0" "(0 :: byte) AND 8 = 0" "\<not> (8 :: byte) \<le> 0"
    by simp_all
  show "fst (websocket_get_frame_header F) = (\<not> protocol_fatal hdr)"
    unfolding websocket_get_frame_header_def need
    using oc promoted
    by (auto simp add: Let_def h0 ext y_def [symmetric] protocol_fatal_def
        listed_violation_def split: prod.splits)
  show "frame_ready (snd (websocket_get_frame_header F))" if "\<not> protocol_fatal hdr"
    using that oc promoted unfolding websocket_get_frame_header_def need
    by (auto simp add: Let_def h0 ext y_def [symmetric] protocol_fatal_def
        listed_violation_def split: prod.splits)
qed

lemma size_t_of_int_small: "0 \<le> k \<Longrightarrow> k \<le> 2147483647 \<Longrightarrow> size_t_of_int k = nat k"
  by (simp add: size_t_of_int_def)

lemma loop_header_step:
  assumes "0 < sz" and "\<not> frame_ready (read_frame ws)"
    and "raw_read w (size_t_of_int (frame_bytes_needed (read_frame ws))) = (rc, d, w')"
    and "0 < rc"
    and "websocket_get_frame_header ((read_frame ws)
           \<lparr>header := store_bytes (header (read_frame ws)) (nat (header_pos (read_frame ws))) d,
            header_pos := header_pos (read_frame ws) + rc\<rparr>) = (ok, frame)"
  shows "websocket_read_loop ws w sz n out =
     (if \<not> ok then (- 1, out, ws\<lparr>read_frame := frame, closed := True\<rparr>, w'\<lparr>errno := EIO\<rparr>)
      else websocket_read_loop (ws\<lparr>read_frame := frame\<rparr>) w' sz n out)"
  using assms by (subst websocket_read_loop.simps) simp

lemma stream_take_0 [simp]: "stream_take 0 evs = Some ([], evs)"
  by (cases evs) simp_all

lemma stream_take_data:
  assumes "stream_take m evs = Some (x, evs')" and "0 < m"
  obtains bs rest where "evs = RdData bs # rest" and "bs \<noteq> []"
    and "m < length bs \<Longrightarrow> x = take m bs \<and> evs' = RdData (drop m bs) # rest"
    and "\<not> m < length bs \<Longrightarrow>
         \<exists>d0. stream_take (m - length bs) rest = Some (d0, evs') \<and> x = bs @ d0"
proof (cases evs)
  case Nil
  with assms show ?thesis by simp
next
  case (Cons ev rest)
  show ?thesis
  proof (cases ev)
    case (RdData bs)
    with Cons assms have ne: "bs \<noteq> []"
      by (auto split: if_splits)
    show ?thesis
    proof (rule that [of bs rest])
      show "evs = RdData bs # rest" by (simp add: Cons RdData)
      show "bs \<noteq> []" by (rule ne)
      show "x = take m bs \<and> evs' = RdData (drop m bs) # rest" if "m < length bs"
        using assms that ne by (simp add: Cons RdData)
      show "\<exists>d0. stream_take (m - length bs) rest = Some (d0, evs') \<and> x = bs @ d0"
        if "\<not> m < length bs"
        using assms that ne by (auto simp add: Cons RdData split: option.splits)
    qed
  next
    case RdEof
    with Cons assms show ?thesis by simp
  next
    case (RdErr e)
    with Cons assms show ?thesis by simp
  qed
qed

lemma stream_take_step:
  assumes st: "stream_take m (inbound w) = Some (x, evs')" and m: "0 < m"
    and req: "0 < req" "req \<le> m" "req \<le> INT_MAX"
  obtains k w' where "raw_read w req = (int k, take k x, w')" and "0 < k" and "k \<le> req"
    and "stream_take (m - k) (inbound w') = Some (drop k x, evs')"
    and "w' = w\<lparr>inbound := inbound w'\<rparr>"
proof -
  from stream_take_data [OF st m] obtain bs rest where inb: "inbound w = RdData bs # rest"
    and ne: "bs \<noteq> []"
    and short: "m < length bs \<Longrightarrow> x = take m bs \<and> evs' = RdData (drop m bs) # rest"
    and long: "\<not> m < length bs \<Longrightarrow>
         \<exists>d0. stream_take (m - length bs) rest = Some (d0, evs') \<and> x = bs @ d0"
    by blast
  define k where "k = min req (length bs)"
  have k: "0 < k" "k \<le> req" "k \<le> length bs" "k \<le> m"
    using req ne by (simp_all add: k_def)
  have kk: "min (min req (length bs)) INT_MAX = k"
    using req(3) by (simp add: k_def)
  define w' where
    "w' = w\<lparr>inbound := (if k < length bs then RdData (drop k bs) # rest else rest)\<rparr>"
  have rd: "raw_read w req = (int k, take k bs, w')"
    by (simp add: raw_read_def inb Let_def kk w'_def)
  have inb': "inbound w' = (if k < length bs then RdData (drop k bs) # rest else rest)"
    by (simp add: w'_def)
  have tk: "take k x = take k bs"
  proof (cases "m < length bs")
    case True
    with short k show ?thesis by (simp add: min_absorb1)
  next
    case False
    with long k show ?thesis by auto
  qed
  have rest: "stream_take (m - k) (inbound w') = Some (drop k x, evs')"
  proof (cases "m < length bs")
    case True
    with k have klt: "k < length bs" by simp
    from True short have x: "x = take m bs" and e: "evs' = RdData (drop m bs) # rest"
      by simp_all
    have d: "drop k (take m bs) = take (m - k) (drop k bs)"
      by (simp add: drop_take)
    show ?thesis
    proof (cases "m = k")
      case True
      with klt x e show ?thesis by (simp add: inb')
    next
      case False
      with k have "0 < m - k" by simp
      with klt True k show ?thesis
        by (simp add: inb' x e d)
    qed
  next
    case False
    with long obtain d0 where st0: "stream_take (m - length bs) rest = Some (d0, evs')"
      and x: "x = bs @ d0"
      by blast
    show ?thesis
    proof (cases "k < length bs")
      case True
      with False k have pos: "0 < m - k" "\<not> m - k < length bs - k" 
        by simp_all
      from True have ne': "drop k bs \<noteq> []" by simp
      have "m - k - (length bs - k) = m - length bs"
        using k by simp
      with True pos ne' st0 show ?thesis
        by (simp add: inb' x)
    next
      case kl: False
      with k have "k = length bs" by simp
      with st0 x show ?thesis by (simp add: inb')
    qed
  qed
  show ?thesis
    by (rule that [of k w']) (use rd tk k rest in \<open>simp_all add: w'_def\<close>)
qed

lemma header_prefix_frame:
  assumes "p \<le> length hdr" and "length hdr \<le> 14"
  shows "header (frame_with_header (take p hdr)) = take p hdr @ replicate (14 - p) 0"
    and "header_pos (frame_with_header (take p hdr)) = int p"
    and "\<not> frame_ready (frame_with_header (take p hdr))"
  using assms
  by (simp_all add: frame_with_header_def store_bytes_def websocket_clear_frame_def min_absorb2)

lemma frame_bytes_needed_prefix:
  assumes "p \<le> length hdr" and "2 \<le> length hdr"
    and "length hdr = websocket_header_len (hdr ! 1)"
  shows "frame_bytes_needed (frame_with_header (take p hdr)) =
         (if p < 2 then 2 - int p else int (length hdr) - int p)"
proof -
  have le: "length hdr \<le> 14"
    using assms(3) header_len_le by simp
  note hp = header_prefix_frame [OF assms(1) le]
  show ?thesis
  proof (cases "p < 2")
    case True
    then show ?thesis
      by (simp add: frame_bytes_needed_def hp)
  next
    case False
    with assms(1) have "header (frame_with_header (take p hdr)) ! 1 = hdr ! 1"
      by (simp add: hp nth_append)
    with False assms(3) show ?thesis
      unfolding frame_bytes_needed_def
      by (simp add: hp(2) websocket_header_len_def Let_def)
  qed
qed

lemma store_header_bytes:
  assumes "p + k \<le> length hdr" and "length hdr \<le> 14"
  shows "(frame_with_header (take p hdr))
           \<lparr>header := store_bytes (header (frame_with_header (take p hdr)))
                        (nat (header_pos (frame_with_header (take p hdr))))
                        (take k (drop p hdr)),
            header_pos := header_pos (frame_with_header (take p hdr)) + int k\<rparr> =
         frame_with_header (take (p + k) hdr)"
proof -
  from assms have p: "p \<le> length hdr" by simp
  have Hp: "store_bytes (replicate 14 0) 0 (take p hdr) = take p hdr @ replicate (14 - p) 0"
    using p assms(2) by (simp add: store_bytes_def min_absorb2)
  have Hpk: "store_bytes (replicate 14 0) 0 (take (p + k) hdr) =
        take (p + k) hdr @ replicate (14 - (p + k)) 0"
    using assms by (simp add: store_bytes_def min_absorb2)
  have "take p hdr @ take k (drop p hdr) = take (p + k) hdr"
    by (simp add: take_add)
  then have "store_bytes (take p hdr @ replicate (14 - p) 0) p (take k (drop p hdr)) =
        take (p + k) hdr @ replicate (14 - (p + k)) 0"
    using assms by (simp add: store_bytes_def min_absorb2)
  with assms show ?thesis
    by (simp add: frame_with_header_def Hp Hpk min_absorb2)
qed

lemma header_arrives:
  assumes sz: "0 < sz" and len2: "2 \<le> length hdr"
    and full: "length hdr = websocket_header_len (hdr ! 1)"
  shows "p < length hdr \<Longrightarrow> read_frame ws = frame_with_header (take p hdr) \<Longrightarrow>
     stream_take (length hdr - p) (inbound w) = Some (drop p hdr, evs') \<Longrightarrow>
     websocket_read_loop ws w sz n out =
       (if protocol_fatal hdr
        then (- 1, out,
              ws\<lparr>read_frame := snd (websocket_get_frame_header (frame_with_header hdr)),
                 closed := True\<rparr>,
              w\<lparr>inbound := evs', errno := EIO\<rparr>)
        else websocket_read_loop
              (ws\<lparr>read_frame := snd (websocket_get_frame_header (frame_with_header hdr))\<rparr>)
              (w\<lparr>inbound := evs'\<rparr>) sz n out)"
proof (induction "length hdr - p" arbitrary: p ws w rule: less_induct)
  case less
  note p = less.prems(1) and fr = less.prems(2) and st = less.prems(3)
  define L where "L = length hdr"
  define parsed where "parsed = websocket_get_frame_header (frame_with_header hdr)"
  have le: "L \<le> 14"
    using full header_len_le by (simp add: L_def)
  have pL: "p \<le> length hdr" using p by simp
  define req where "req = (if p < 2 then 2 - p else L - p)"
  have need: "frame_bytes_needed (read_frame ws) = int req"
    using frame_bytes_needed_prefix [OF pL len2 full] p
    by (simp add: fr req_def L_def of_nat_diff)
  have req: "0 < req" "req \<le> length hdr - p" "req \<le> INT_MAX"
    using p len2 le by (auto simp add: req_def L_def INT_MAX_def)
  have sreq: "size_t_of_int (frame_bytes_needed (read_frame ws)) = req"
    using req(3) by (simp add: need size_t_of_int_small INT_MAX_def)
  from p have m: "0 < length hdr - p" by simp
  from stream_take_step [OF st m req] obtain k w1 where
    rd: "raw_read w req = (int k, take k (drop p hdr), w1)" and k: "0 < k" "k \<le> req"
    and st1: "stream_take (length hdr - p - k) (inbound w1) = Some (drop k (drop p hdr), evs')"
    and w1: "w1 = w\<lparr>inbound := inbound w1\<rparr>"
    by blast
  from k req have pk: "p + k \<le> length hdr" by simp
  have stored: "(read_frame ws)
      \<lparr>header := store_bytes (header (read_frame ws)) (nat (header_pos (read_frame ws)))
                   (take k (drop p hdr)),
       header_pos := header_pos (read_frame ws) + int k\<rparr> = frame_with_header (take (p + k) hdr)"
    unfolding fr using store_header_bytes [OF pk] le by (simp add: L_def)
  have nr: "\<not> frame_ready (read_frame ws)"
    unfolding fr using header_prefix_frame(3) [OF pL] le by (simp add: L_def)
  have rd': "raw_read w (size_t_of_int (frame_bytes_needed (read_frame ws))) =
      (int k, take k (drop p hdr), w1)"
    using rd by (simp add: sreq)
  have kpos: "0 < int k" using k by simp
  show ?case
  proof (cases "p + k = length hdr")
    case True
    then have whole: "frame_with_header (take (p + k) hdr) = frame_with_header hdr"
      by simp
    from True st1 have "inbound w1 = evs'"
      by simp
    with w1 have w1': "w1 = w\<lparr>inbound := evs'\<rparr>" by simp
    have ok: "fst parsed = (\<not> protocol_fatal hdr)"
      unfolding parsed_def by (rule get_frame_header_complete(1) [OF len2 full])
    have "websocket_get_frame_header ((read_frame ws)
      \<lparr>header := store_bytes (header (read_frame ws)) (nat (header_pos (read_frame ws)))
                   (take k (drop p hdr)),
       header_pos := header_pos (read_frame ws) + int k\<rparr>) = (fst parsed, snd parsed)"
      unfolding stored whole by (simp add: parsed_def)
    from loop_header_step [OF sz nr rd' kpos this, of n out] show ?thesis
      by (simp add: ok w1' parsed_def [symmetric])
  next
    case False
    with pk have lt: "p + k < length hdr" by simp
    then have pk': "p + k \<le> length hdr" by simp
    define F where "F = frame_with_header (take (p + k) hdr)"
    have "0 < frame_bytes_needed F"
      using frame_bytes_needed_prefix [OF pk' len2 full] lt by (simp add: F_def)
    then have "websocket_get_frame_header F = (True, F)"
      by (simp add: websocket_get_frame_header_def)
    then have "websocket_get_frame_header ((read_frame ws)
      \<lparr>header := store_bytes (header (read_frame ws)) (nat (header_pos (read_frame ws)))
                   (take k (drop p hdr)),
       header_pos := header_pos (read_frame ws) + int k\<rparr>) = (True, F)"
      unfolding stored F_def .
    from loop_header_step [OF sz nr rd' kpos this, of n out]
    have first: "websocket_read_loop ws w sz n out =
        websocket_read_loop (ws\<lparr>read_frame := F\<rparr>) w1 sz n out"
      by simp
    have st2: "stream_take (length hdr - (p + k)) (inbound w1) = Some (drop (p + k) hdr, evs')"
      using st1 by (simp add: add.commute)
    have "websocket_read_loop (ws\<lparr>read_frame := F\<rparr>) w1 sz n out =
       (if protocol_fatal hdr
        then (- 1, out,
              ws\<lparr>read_frame := F\<rparr>
                \<lparr>read_frame := snd (websocket_get_frame_header (frame_with_header hdr)),
                 closed := True\<rparr>,
              w1\<lparr>inbound := evs', errno := EIO\<rparr>)
        else websocket_read_loop
              (ws\<lparr>read_frame := F\<rparr>
                \<lparr>read_frame := snd (websocket_get_frame_header (frame_with_header hdr))\<rparr>)
              (w1\<lparr>inbound := evs'\<rparr>) sz n out)"
    proof (rule less.hyps [OF _ lt _ st2])
      show "length hdr - (p + k) < length hdr - p"
        using k lt by simp
      show "read_frame (ws\<lparr>read_frame := F\<rparr>) = frame_with_header (take (p + k) hdr)"
        by (simp add: F_def)
    qed
    moreover have "w1\<lparr>inbound := evs'\<rparr> = w\<lparr>inbound := evs'\<rparr>"
      by (subst w1) simp
    moreover have "w1\<lparr>inbound := evs', errno := EIO\<rparr> = w\<lparr>inbound := evs', errno := EIO\<rparr>"
      by (subst w1) simp
    ultimately show ?thesis
      using first by simp
  qed
qed

lemma frame_with_header_Nil: "frame_with_header [] = websocket_clear_frame"
  by (simp add: frame_with_header_def store_bytes_def websocket_clear_frame_def)

text \<open>
  C4 (as amended). Let an open handle hold the first \<open>p\<close> bytes of a frame header (none
  when it expects a new frame), and let the rest of the header arrive on the raw stream,
  in any number of chunks. If the header has a reserved bit set, or is a control frame
  without FIN, or has an opcode from 3 to 7 or from 0xB to 0xF, or is a control frame
  whose extracted length is 126 or more, then websocket_read marks the handle closed and
  returns -1 with errno EIO. For every other header the parse step succeeds, the frame
  becomes ready, the handle is not closed and the read goes on with the payload.
\<close>

theorem C4_header_validation:
  assumes "\<not> closed ws" and "\<not> close_pending ws" and sz: "0 < sz"
    and len2: "2 \<le> length hdr"
    and full: "length hdr = websocket_header_len (hdr ! 1)"
    and p: "p < length hdr"
    and fr: "read_frame ws = frame_with_header (take p hdr)"
    and st: "stream_take (length hdr - p) (inbound w) = Some (drop p hdr, evs')"
  shows "websocket_read ws w sz =
     (if protocol_fatal hdr
      then (- 1, [],
            ws\<lparr>read_frame := snd (websocket_get_frame_header (frame_with_header hdr)),
               closed := True\<rparr>,
            w\<lparr>inbound := evs', errno := EIO\<rparr>)
      else websocket_read_loop
            (ws\<lparr>read_frame := snd (websocket_get_frame_header (frame_with_header hdr))\<rparr>)
            (w\<lparr>inbound := evs'\<rparr>) sz 0 [])
     \<and> (\<not> protocol_fatal hdr \<longrightarrow>
          fst (websocket_get_frame_header (frame_with_header hdr))
          \<and> frame_ready (snd (websocket_get_frame_header (frame_with_header hdr))))"
proof -
  have "websocket_read ws w sz = websocket_read_loop ws w sz 0 []"
    using assms(1,2) by (simp add: websocket_read_def)
  with header_arrives [OF sz len2 full p fr st, of 0 "[]"]
    get_frame_header_complete [OF len2 full]
  show ?thesis by simp
qed

theorem C4_header_validation_witness:
  "\<not> protocol_fatal [0x82, 0x7E, 0x01, 0x00]
   \<and> websocket_read new_RedsWebSocket
         (a_world [RdData [0x82], RdData [0x7E, 0x01], RdData [0x00, 0x41]] []) 4 =
       websocket_read_loop
         (new_RedsWebSocket\<lparr>read_frame :=
            snd (websocket_get_frame_header (frame_with_header [0x82, 0x7E, 0x01, 0x00]))\<rparr>)
         (a_world [RdData [0x41]] []) 4 0 []
   \<and> frame_ready (snd (websocket_get_frame_header (frame_with_header [0x82, 0x7E, 0x01, 0x00])))
   \<and> protocol_fatal [0xC2, 0x00]
   \<and> websocket_read new_RedsWebSocket (a_world [RdData [0xC2, 0x00]] []) 4 =
       (- 1, [],
        new_RedsWebSocket\<lparr>read_frame :=
            snd (websocket_get_frame_header (frame_with_header [0xC2, 0x00])),
          closed := True\<rparr>,
        (a_world [] [])\<lparr>errno := EIO\<rparr>)"
  using C4_header_validation [of new_RedsWebSocket 4 "[0x82, 0x7E, 0x01, 0x00]" 0
      "a_world [RdData [0x82], RdData [0x7E, 0x01], RdData [0x00, 0x41]] []" "[RdData [0x41]]"]
    C4_header_validation [of new_RedsWebSocket 4 "[0xC2, 0x00]" 0
      "a_world [RdData [0xC2, 0x00]] []" "[]"]
  by (simp add: new_RedsWebSocket_def a_world_def websocket_header_len_def protocol_fatal_def
      listed_violation_def extract_length_def int_shl_def Let_def word_le_nat_alt
      frame_with_header_Nil)

text \<open>
  C4 as stated lists four violations and says that every other header is parsed. The
  header 8B 00 (FIN set, opcode 0xB, no payload) has none of the four, and the connection
  fails on it all the same.
\<close>

theorem C4_reserved_control_opcode_counterexample:
  "\<not> listed_violation [0x8B, 0x00]
   \<and> websocket_read new_RedsWebSocket (a_world [RdData [0x8B, 0x00]] []) 4 =
       (- 1, [],
        new_RedsWebSocket\<lparr>read_frame := (frame_with_header [0x8B, 0x00])\<lparr>ftype := 0xB\<rparr>,
          closed := True\<rparr>,
        (a_world [] [])\<lparr>errno := EIO\<rparr>)"
  by (simp add: read_eval listed_violation_def word_le_nat_alt)

subsection \<open>Closed handles\<close>

text \<open>
  C5. On a handle in the closed state, websocket_read returns 0 and delivers no byte,
  after one raw read of at most 128 bytes that it discards; websocket_write and
  websocket_writev return -1 with errno EPIPE and call no callback. The handle is
  unchanged in all three cases.
\<close>

theorem C5_closed_handle:
  assumes "closed ws"
  shows "websocket_read ws w sz = (0, [], ws, snd (snd (raw_read w 128)))
       \<and> websocket_write ws w len = Some (- 1, ws, w\<lparr>errno := EPIPE\<rparr>)
       \<and> websocket_writev ws w iov = (- 1, ws, w\<lparr>errno := EPIPE\<rparr>)"
  using assms
  by (simp add: websocket_read_def websocket_write_def websocket_writev_def split: prod.splits)

theorem C5_closed_handle_witness:
  "closed (new_RedsWebSocket\<lparr>closed := True\<rparr>)
   \<and> websocket_read (new_RedsWebSocket\<lparr>closed := True\<rparr>) (a_world [RdData [1, 2, 3]] []) 10 =
       (0, [], new_RedsWebSocket\<lparr>closed := True\<rparr>, a_world [] [])
   \<and> websocket_write (new_RedsWebSocket\<lparr>closed := True\<rparr>) (a_world [] [(3, EIO)]) 3 =
       Some (- 1, new_RedsWebSocket\<lparr>closed := True\<rparr>, (a_world [] [(3, EIO)])\<lparr>errno := EPIPE\<rparr>)
   \<and> websocket_writev (new_RedsWebSocket\<lparr>closed := True\<rparr>) (a_world [] [(3, EIO)]) [1, 2] =
       (- 1, new_RedsWebSocket\<lparr>closed := True\<rparr>, (a_world [] [(3, EIO)])\<lparr>errno := EPIPE\<rparr>)"
  using C5_closed_handle [of "new_RedsWebSocket\<lparr>closed := True\<rparr>" "a_world [RdData [1, 2, 3]] []"
      10 3 "[1, 2]"]
    C5_closed_handle [of "new_RedsWebSocket\<lparr>closed := True\<rparr>" "a_world [] [(3, EIO)]"
      10 3 "[1, 2]"]
  by (simp add: raw_read_def a_world_def INT_MAX_def)

subsection \<open>Unmasking\<close>

lemma raw_read_bytes:
  assumes "raw_read w k = (rc, d, w1)" and "0 < rc"
  shows "length d = nat rc" and "nat rc \<le> k"
    and "stream_bytes (inbound w) = d @ stream_bytes (inbound w1)"
proof -
  from assms obtain bs rest where inb: "inbound w = RdData bs # rest"
    by (auto simp add: raw_read_def split: list.splits rd_event.splits)
  define j where "j = min (min k (length bs)) INT_MAX"
  from assms(1) inb have rc: "rc = int j" and d: "d = take j bs"
    and w1: "inbound w1 = (if j < length bs then RdData (drop j bs) # rest else rest)"
    by (auto simp add: raw_read_def Let_def j_def)
  have j: "j \<le> k" "j \<le> length bs"
    by (simp_all add: j_def)
  from rc d j show "length d = nat rc" and "nat rc \<le> k"
    by simp_all
  show "stream_bytes (inbound w) = d @ stream_bytes (inbound w1)"
  proof (cases "j < length bs")
    case True
    with inb d w1 show ?thesis by simp
  next
    case False
    with j have "j = length bs" by simp
    with inb d w1 show ?thesis by simp
  qed
qed

lemma relay_data_loop_length: "length (fst (relay_data_loop bs m r)) = length bs"
  by (induction bs arbitrary: r) (simp_all add: split_beta)

lemma relay_data_loop_relayed: "snd (relay_data_loop bs m r) = r + of_nat (length bs)"
  by (induction bs arbitrary: r) (simp_all add: split_beta)

lemma relay_data_loop_nth:
  "i < length bs \<Longrightarrow>
   fst (relay_data_loop bs m r) ! i = bs ! i XOR m ! unat ((r + of_nat i) mod 4)"
proof (induction bs arbitrary: r i)
  case Nil
  then show ?case by simp
next
  case (Cons b bs)
  show ?case
  proof (cases i)
    case 0
    then show ?thesis by (simp add: split_beta)
  next
    case (Suc j)
    with Cons.prems have "j < length bs" by simp
    from Cons.IH [OF this, of "r + 1"] Suc show ?thesis
      by (simp add: split_beta add.assoc)
  qed
qed

lemma relayed_advance:
  fixes r e :: "64 word"
  assumes "r \<le> e" and "k \<le> unat (e - r)"
  shows "unat (r + of_nat k) = unat r + k"
    and "r + of_nat k \<le> e"
    and "unat (e - (r + of_nat k)) = unat (e - r) - k"
    and "k < unat (e - r) \<Longrightarrow> \<not> e \<le> r + of_nat k"
proof -
  have s: "unat (e - r) = unat e - unat r"
    using assms(1) by (simp add: unat_sub)
  have e: "unat e < 2 ^ 64"
    using unsigned_less [of e, where ?'a = nat] by simp
  from assms s have le: "unat r + k \<le> unat e"
    by (simp add: word_le_nat_alt)
  with e have k: "k < 2 ^ 64" by simp
  then have uk: "unat (of_nat k :: 64 word) = k"
    by (simp add: unat_of_nat)
  from le e uk show a: "unat (r + of_nat k) = unat r + k"
    by (simp add: unat_add_lem [THEN iffD1])
  from a le show b: "r + of_nat k \<le> e"
    by (simp add: word_le_nat_alt)
  from b a s show "unat (e - (r + of_nat k)) = unat (e - r) - k"
    by (simp add: unat_sub)
  show "\<not> e \<le> r + of_nat k" if "k < unat (e - r)"
    using that a s by (simp add: word_le_nat_alt)
qed

lemma relay_data_masked:
  assumes "masked f" and "length d \<le> unat (expected_len f - relayed f)"
  shows "relay_data d (length d) f =
     (int (length d), fst (relay_data_loop d (fmask f) (relayed f)),
      f\<lparr>relayed := relayed f + of_nat (length d)\<rparr>)"
  using assms
  by (simp add: relay_data_def Let_def min_def split_beta relay_data_loop_relayed)

lemma websocket_read_loop_prefix:
  "websocket_read_loop ws w sz n out = (N, out', ws', w') \<Longrightarrow> \<exists>ext. out' = out @ ext"
proof (induction ws w sz n out rule: websocket_read_loop.induct)
  case (1 ws w sz n out)
  note run = "1.prems"
  show ?case
  proof (cases "0 < sz")
    case False
    with run show ?thesis
      by (subst (asm) websocket_read_loop.simps) simp
  next
    case sz: True
    show ?thesis
    proof (cases "frame_ready (read_frame ws)")
      case nr: False
      obtain r d w1 where rd:
        "raw_read w (size_t_of_int (frame_bytes_needed (read_frame ws))) = (r, d, w1)"
        by (cases "raw_read w (size_t_of_int (frame_bytes_needed (read_frame ws)))") auto
      show ?thesis
      proof (cases "r \<le> 0")
        case True
        with run sz nr rd have "read_error ws w1 n r out = (N, out', ws', w')"
          by (subst (asm) websocket_read_loop.simps) simp
        then show ?thesis
          by (auto simp add: read_error_def split: if_splits)
      next
        case r: False
        obtain good frame where gf:
          "websocket_get_frame_header (read_frame ws
             \<lparr>header := store_bytes (header (read_frame ws)) (nat (header_pos (read_frame ws))) d,
              header_pos := header_pos (read_frame ws) + r\<rparr>) = (good, frame)"
          by (cases "websocket_get_frame_header (read_frame ws
             \<lparr>header := store_bytes (header (read_frame ws)) (nat (header_pos (read_frame ws))) d,
              header_pos := header_pos (read_frame ws) + r\<rparr>)")
        show ?thesis
        proof (cases good)
          case False
          with run sz nr rd r gf show ?thesis
            by (subst (asm) websocket_read_loop.simps) auto
        next
          case True
          with run sz nr rd r gf
          have L: "websocket_read_loop (ws\<lparr>read_frame := frame\<rparr>) w1 sz n out = (N, out', ws', w')"
            by (subst (asm) websocket_read_loop.simps) simp
          show ?thesis
            by (rule "1.IH"(1) [of r "(d, w1)" d w1 good frame])
               (use L sz nr rd r gf True in simp_all)
        qed
      qed
    next
      case ready: True
      show ?thesis
      proof (cases "ftype (read_frame ws) = 0x8")
        case True
        with run sz ready show ?thesis
          by (subst (asm) websocket_read_loop.simps) (auto split: prod.splits)
      next
        case nc: False
        show ?thesis
        proof (cases "ftype (read_frame ws) = 0x2")
          case True
          obtain r d w1 where rd:
            "raw_read w (min sz (unat (expected_len (read_frame ws) - relayed (read_frame ws))))
               = (r, d, w1)"
            by (cases "raw_read w
                (min sz (unat (expected_len (read_frame ws) - relayed (read_frame ws))))") auto
          show ?thesis
          proof (cases "r \<le> 0")
            case le: True
            with run sz ready nc True rd have "read_error ws w1 n r out = (N, out', ws', w')"
              by (subst (asm) websocket_read_loop.simps) simp
            then show ?thesis
              by (auto simp add: read_error_def split: if_splits)
          next
            case r: False
            obtain k d' frame where rl: "relay_data d (nat r) (read_frame ws) = (k, d', frame)"
              by (cases "relay_data d (nat r) (read_frame ws)") auto
            from run sz ready nc True rd r rl
            have L: "websocket_read_loop
                    (ws\<lparr>read_frame := (if relayed frame \<ge> expected_len frame
                                        then websocket_clear_frame else frame)\<rparr>)
                    w1 (sz - nat k) (n + k) (out @ take (nat k) d') = (N, out', ws', w')"
              by (subst (asm) websocket_read_loop.simps) simp
            have "\<exists>ext. out' = (out @ take (nat k) d') @ ext"
              by (rule "1.IH"(2) [of r "(d, w1)" d w1 k "(d', frame)" d' frame])
                 (use L sz ready nc True rd r rl in simp_all)
            then show ?thesis by auto
          qed
        next
          case False
          with run sz ready nc
          have L: "websocket_read_loop (ws\<lparr>read_frame := websocket_clear_frame\<rparr>) w sz n out
                  = (N, out', ws', w')"
            by (subst (asm) websocket_read_loop.simps) simp
          show ?thesis
            by (rule "1.IH"(3)) (use L sz ready nc False in simp_all)
        qed
      qed
    qed
  qed
qed

lemma mask_index:
  fixes r :: "64 word"
  assumes "unat (r + of_nat i) = unat r + i"
  shows "unat ((r + of_nat i) mod 4) = (unat r + i) mod 4"
  using assms by (simp add: unat_mod)

lemma websocket_read_loop_unmask:
  "websocket_read_loop ws w sz n out = (N, out', ws', w') \<Longrightarrow>
   frame_ready (read_frame ws) \<Longrightarrow> ftype (read_frame ws) = 0x2 \<Longrightarrow> masked (read_frame ws) \<Longrightarrow>
   relayed (read_frame ws) \<le> expected_len (read_frame ws) \<Longrightarrow> 0 \<le> n \<Longrightarrow>
   i < nat (N - n) \<Longrightarrow> i < unat (expected_len (read_frame ws) - relayed (read_frame ws)) \<Longrightarrow>
   out' ! (length out + i) =
     stream_bytes (inbound w) ! i XOR
     fmask (read_frame ws) ! ((unat (relayed (read_frame ws)) + i) mod 4)"
proof (induction ws w sz n out arbitrary: i rule: websocket_read_loop.induct)
  case (1 ws w sz n out)
  note run = "1.prems"(1) and ready = "1.prems"(2) and bin = "1.prems"(3)
    and msk = "1.prems"(4) and le = "1.prems"(5) and n0 = "1.prems"(6)
    and iN = "1.prems"(7) and iE = "1.prems"(8)
  define f where "f = read_frame ws"
  define e where "e = expected_len f"
  define r where "r = relayed f"
  have nc: "ftype (read_frame ws) \<noteq> 0x8"
    using bin by simp
  have sz: "0 < sz"
  proof (rule ccontr)
    assume "\<not> 0 < sz"
    with run have "N = n"
      by (subst (asm) websocket_read_loop.simps) simp
    with iN show False by simp
  qed
  obtain rc d w1 where rd: "raw_read w (min sz (unat (e - r))) = (rc, d, w1)"
    by (cases "raw_read w (min sz (unat (e - r)))") auto
  have rc: "0 < rc"
  proof (rule ccontr)
    assume "\<not> 0 < rc"
    with run sz ready nc bin rd have "read_error ws w1 n rc out = (N, out', ws', w')"
      by (subst (asm) websocket_read_loop.simps) (simp add: f_def e_def r_def)
    with \<open>\<not> 0 < rc\<close> n0 have "N \<le> n"
      by (auto simp add: read_error_def split: if_splits)
    with iN show False by simp
  qed
  note rb = raw_read_bytes [OF rd rc]
  define k where "k = length d"
  from rb have k: "nat rc = k" "k \<le> unat (e - r)"
    by (simp_all add: k_def)
  have le': "r \<le> e"
    using le by (simp add: r_def e_def f_def)
  note adv = relayed_advance [OF le' k(2)]
  define d' where "d' = fst (relay_data_loop d (fmask f) r)"
  define f' where "f' = f\<lparr>relayed := r + of_nat k\<rparr>"
  have rl: "relay_data d (nat rc) (read_frame ws) = (int k, d', f')"
    using relay_data_masked [of f d] msk k
    by (simp add: f_def [symmetric] k_def d'_def f'_def r_def e_def)
  have ld': "length d' = k"
    by (simp add: d'_def k_def relay_data_loop_length)
  from run sz ready nc bin rd rc rl ld'
  have L: "websocket_read_loop
      (ws\<lparr>read_frame := (if relayed f' \<ge> expected_len f' then websocket_clear_frame else f')\<rparr>)
      w1 (sz - k) (n + int k) (out @ d') = (N, out', ws', w')"
    by (subst (asm) websocket_read_loop.simps) (simp add: f_def [symmetric] e_def r_def)
  from websocket_read_loop_prefix [OF L] obtain ext where out': "out' = out @ d' @ ext"
    by auto
  have sb: "stream_bytes (inbound w) = d @ stream_bytes (inbound w1)"
    by (rule rb(3))
  show ?case
  proof (cases "i < k")
    case True
    then have "out' ! (length out + i) = d' ! i"
      by (simp add: out' nth_append ld')
    also have "\<dots> = d ! i XOR fmask f ! unat ((r + of_nat i) mod 4)"
      using True by (simp add: d'_def k_def relay_data_loop_nth)
    also have "unat ((r + of_nat i) mod 4) = (unat r + i) mod 4"
    proof (rule mask_index)
      from True k(2) have "i \<le> unat (e - r)" by simp
      from relayed_advance(1) [OF le' this] show "unat (r + of_nat i) = unat r + i" .
    qed
    also have "d ! i = stream_bytes (inbound w) ! i"
      using True by (simp add: sb nth_append k_def)
    finally show ?thesis
      by (simp add: f_def r_def)
  next
    case False
    then have ik: "k \<le> i" by simp
    with iE have klt: "k < unat (e - r)"
      by (simp add: e_def r_def f_def)
    from adv(4) [OF klt] have keep: "\<not> expected_len f' \<le> relayed f'"
      by (simp add: f'_def e_def)
    with L have L': "websocket_read_loop (ws\<lparr>read_frame := f'\<rparr>) w1 (sz - k) (n + int k)
        (out @ d') = (N, out', ws', w')"
      by simp
    let ?wsn = "ws\<lparr>read_frame :=
        if expected_len f' \<le> relayed f' then websocket_clear_frame else f'\<rparr>"
    have wsn: "read_frame ?wsn = f'"
      using keep by simp
    have IH0: "out' ! (length (out @ take (nat (int k)) d') + (i - k)) =
          stream_bytes (inbound w1) ! (i - k) XOR
          fmask (read_frame ?wsn) ! ((unat (relayed (read_frame ?wsn)) + (i - k)) mod 4)"
    proof (rule "1.IH"(2) [of rc "(d, w1)" d w1 "int k" "(d', f')" d' f' "i - k"])
      show "websocket_read_loop ?wsn
          w1 (sz - nat (int k)) (n + int k) (out @ take (nat (int k)) d') = (N, out', ws', w')"
        using L ld' by simp
      show "(rc, d, w1) =
          raw_read w (min sz (unat (expected_len (read_frame ws) - relayed (read_frame ws))))"
        using rd by (simp add: f_def e_def r_def)
      show "(int k, d', f') = relay_data d (nat rc) (read_frame ws)"
        using rl by simp
      show "i - k < nat (N - (n + int k))"
        using iN ik by linarith
      show "i - k < unat (expected_len (read_frame ?wsn) - relayed (read_frame ?wsn))"
        unfolding wsn using adv(3) iE ik by (simp add: f'_def e_def r_def f_def)
      show "relayed (read_frame ?wsn) \<le> expected_len (read_frame ?wsn)"
        unfolding wsn using adv(2) by (simp add: f'_def e_def)
      show "frame_ready (read_frame ?wsn)" "ftype (read_frame ?wsn) = 2"
        "masked (read_frame ?wsn)"
        unfolding wsn using ready bin msk by (simp_all add: f'_def f_def)
    qed (use sz ready nc bin rc n0 in simp_all)
    have IH: "out' ! (length (out @ d') + (i - k)) =
          stream_bytes (inbound w1) ! (i - k) XOR
          fmask f' ! ((unat (relayed f') + (i - k)) mod 4)"
      using IH0 ld' unfolding wsn by simp
    have idx: "length (out @ d') + (i - k) = length out + i"
      using ik ld' by simp
    have byte: "stream_bytes (inbound w1) ! (i - k) = stream_bytes (inbound w) ! i"
      using ik by (simp add: sb nth_append k_def)
    have m: "(unat (relayed f') + (i - k)) mod 4 = (unat r + i) mod 4"
      using adv(1) ik by (simp add: f'_def)
    have "fmask f' = fmask f"
      by (simp add: f'_def)
    with IH [unfolded idx byte m] show ?thesis
      by (simp add: f_def r_def)
  qed
qed

lemma bytes_of_Hello: "bytes_of ''Hello'' = [0x48, 0x65, 0x6c, 0x6c, 0x6f]"
  by (simp add: bytes_of_def)

text \<open>
  A masked binary header without reserved bits is accepted, and the parsed frame takes its
  mask from the last four bytes of the header, after the length field.
\<close>

lemma binary_opcode:
  fixes x :: byte
  assumes "x AND 0x7F = 0x2"
  shows "x AND 0x0F = 0x2" and "x AND 0x70 = 0"
proof -
  have "x AND 0x0F = (x AND 0x7F) AND 0x0F"
    by (simp add: and.assoc)
  with assms show "x AND 0x0F = 0x2" by simp
  have "x AND 0x70 = (x AND 0x7F) AND 0x70"
    by (simp add: and.assoc)
  with assms show "x AND 0x70 = 0" by simp
qed

lemma extract_length_used:
  "snd (extract_length buf used) =
     used + 1 + (if buf ! 0 AND 0x7F = 0x7F then 8 else if buf ! 0 AND 0x7F = 0x7E then 2 else 0)"
  by (simp add: extract_length_def Let_def length_field_127 length_field_126)

lemma masked_binary_parsed:
  assumes len2: "2 \<le> length hdr" and full: "length hdr = websocket_header_len (hdr ! 1)"
    and bin: "hdr ! 0 AND 0x7F = 0x2" and msk: "hdr ! 1 AND 0x80 \<noteq> 0"
  shows "websocket_get_frame_header (frame_with_header hdr) =
     (True, (frame_with_header hdr)
        \<lparr>ftype := 0x2, masked := True,
         expected_len := fst (extract_length (drop 1 hdr) 1),
         fmask := drop (length hdr - 4) hdr, relayed := 0, frame_ready := True\<rparr>)"
proof -
  define F where "F = frame_with_header hdr"
  have le: "length hdr \<le> 14"
    using full header_len_le by simp
  have hF: "header F = hdr @ replicate (14 - length hdr) 0"
    unfolding F_def by (rule header_frame_with_header [OF le])
  have h0: "header F ! 0 = hdr ! 0"
    using len2 by (cases hdr) (simp_all add: hF)
  have h1: "header F ! Suc 0 = hdr ! Suc 0"
    using len2 by (simp add: hF nth_append)
  have need: "frame_bytes_needed F = 0"
    unfolding F_def by (rule frame_bytes_needed_complete [OF len2 full])
  have ext: "extract_length (drop (Suc 0) (header F)) 1 = extract_length (drop (Suc 0) hdr) 1"
    unfolding hF by (rule extract_length_append [OF len2 full])
  have d0: "drop (Suc 0) hdr ! 0 = hdr ! 1"
    using len2 by simp
  have used: "nat (snd (extract_length (drop (Suc 0) hdr) 1)) = length hdr - 4"
    using full msk unfolding extract_length_used d0
    by (simp add: websocket_header_len_def)
  have l4: "4 \<le> length hdr"
    using full msk by (simp add: websocket_header_len_def)
  have m: "take 4 (drop (length hdr - 4) (header F)) = drop (length hdr - 4) hdr"
    using l4 by (simp add: hF)
  note oc = binary_opcode [OF bin]
  have promoted: "(2 :: byte) AND 8 = 0" "\<not> (3 :: byte) \<le> 2 AND NOT 8" "(2 :: byte) \<noteq> 0"
    by (simp_all add: word_le_nat_alt)
  show ?thesis
    unfolding F_def [symmetric] websocket_get_frame_header_def need
    using oc promoted msk m used
    by (simp add: Let_def h0 h1 ext split_beta)
qed

text \<open>
  Reads of the masked frame "Hello": two bytes of it by a new handle, the rest by the
  handle that this leaves, and the whole frame with a 16-bit length field, arriving in
  four chunks.
\<close>

lemma mid_frame_reached:
  "websocket_read new_RedsWebSocket (a_world [RdData (hello_header @ hello_payload)] []) 2 =
     (2, [0x48, 0x65], handle_mid_frame, a_world [RdData [0x4d, 0x51, 0x58]] [])"
  by (simp add: read_eval handle_mid_frame_def hello_header_def hello_payload_def)

lemma read_mid_frame:
  "websocket_read handle_mid_frame (a_world [RdData [0x4d, 0x51, 0x58]] []) 3 =
     (3, [0x6c, 0x6c, 0x6f], new_RedsWebSocket, a_world [] [])"
  by (simp add: read_eval handle_mid_frame_def hello_header_def)

lemma read_chunked_frame:
  "websocket_read new_RedsWebSocket
     (a_world [RdData [0x82, 0xFE], RdData [0x00, 0x05, 0x37],
               RdData [0xfa, 0x21, 0x3d, 0x7f, 0x9f], RdData [0x4d, 0x51, 0x58]] []) 5 =
     (5, [0x48, 0x65, 0x6c, 0x6c, 0x6f], new_RedsWebSocket, a_world [] [])"
  by (simp add: read_eval)

lemma mid_frame_parsed:
  "read_frame handle_mid_frame =
     (snd (websocket_get_frame_header (frame_with_header hello_header)))\<lparr>relayed := 2\<rparr>"
  by (simp add: handle_mid_frame_def hello_header_def websocket_get_frame_header_def
      frame_bytes_needed_def frame_with_header_def store_bytes_def extract_length_def
      websocket_clear_frame_def Let_def list_eval)

text \<open>
  C6 (as amended). Let \<open>hdr\<close> be the header of a masked binary frame and \<open>m\<close> its mask, the
  four bytes after the length field. Let websocket_read be called on a handle that holds
  the first \<open>p\<close> bytes of the header, the rest arriving in any number of chunks
  (\<open>relayed_base\<close> is 0 then), or on a handle that has parsed the header and delivered
  \<open>relayed_base\<close> bytes of the frame, and let it return N > 0. Then byte i of the caller's
  buffer, for i < N and within the rest of that frame (i < expected_len - relayed_base,
  with the length that the handle extracted from the header), is byte i of the raw payload
  that follows the header XOR \<open>m[(relayed_base + i) % 4]\<close>. And the masked frame
  82 85 37 fa 21 3d 7f 9f 4d 51 58, read by a new handle into a buffer of 5 bytes, gives
  "Hello"; the handle afterwards is the new handle again: frame cleared, not closed.
\<close>

theorem C6_masked_read:
  assumes len2: "2 \<le> length hdr" and full: "length hdr = websocket_header_len (hdr ! 1)"
    and bin: "hdr ! 0 AND 0x7F = 0x2" and msk: "hdr ! 1 AND 0x80 \<noteq> 0"
    and st: "(p < length hdr \<and> relayed_base = 0
              \<and> read_frame ws = frame_with_header (take p hdr))
           \<or> (p = length hdr \<and> relayed_base \<le> fst (extract_length (drop 1 hdr) 1)
              \<and> read_frame ws = (snd (websocket_get_frame_header (frame_with_header hdr)))
                                   \<lparr>relayed := relayed_base\<rparr>)"
    and inb: "stream_take (length hdr - p) (inbound w) = Some (drop p hdr, payload)"
    and run: "websocket_read ws w sz = (N, out, ws', w')"
    and iN: "i < nat N"
    and iE: "i < unat (fst (extract_length (drop 1 hdr) 1) - relayed_base)"
  shows "out ! i = stream_bytes payload ! i XOR
                   drop (length hdr - 4) hdr ! ((unat relayed_base + i) mod 4)
       \<and> websocket_read new_RedsWebSocket
           (a_world [RdData (hello_header @ hello_payload)] []) 5 =
         (5, bytes_of ''Hello'', new_RedsWebSocket, a_world [] [])"
proof
  define parsed where "parsed = snd (websocket_get_frame_header (frame_with_header hdr))"
  note P = masked_binary_parsed [OF len2 full bin msk]
  have pf: "frame_ready parsed" "ftype parsed = 0x2" "masked parsed" "relayed parsed = 0"
    "expected_len parsed = fst (extract_length (drop 1 hdr) 1)"
    "fmask parsed = drop (length hdr - 4) hdr"
    unfolding parsed_def P by simp_all
  have "\<not> (closed ws \<or> close_pending ws)"
  proof
    assume "closed ws \<or> close_pending ws"
    with run have "N = 0"
      by (auto simp add: websocket_read_def split: prod.splits)
    with iN show False by simp
  qed
  with run have loop: "websocket_read_loop ws w sz 0 [] = (N, out, ws', w')"
    by (simp add: websocket_read_def)
  have sz: "0 < sz"
  proof (rule ccontr)
    assume "\<not> 0 < sz"
    with loop have "N = 0"
      by (subst (asm) websocket_read_loop.simps) simp
    with iN show False by simp
  qed
  from st show "out ! i = stream_bytes payload ! i XOR
                   drop (length hdr - 4) hdr ! ((unat relayed_base + i) mod 4)"
  proof (elim disjE conjE)
    assume p: "p < length hdr" and r: "relayed_base = 0"
      and fr: "read_frame ws = frame_with_header (take p hdr)"
    have ok: "\<not> protocol_fatal hdr"
      using get_frame_header_complete(1) [OF len2 full] P by simp
    from header_arrives [OF sz len2 full p fr inb, of 0 "[]"] ok loop
    have L: "websocket_read_loop (ws\<lparr>read_frame := parsed\<rparr>) (w\<lparr>inbound := payload\<rparr>) sz 0 []
             = (N, out, ws', w')"
      by (simp add: parsed_def)
    from websocket_read_loop_unmask [OF L, of i] pf iN iE r
    show ?thesis by simp
  next
    assume p: "p = length hdr" and r: "relayed_base \<le> fst (extract_length (drop 1 hdr) 1)"
      and fr: "read_frame ws = (snd (websocket_get_frame_header (frame_with_header hdr)))
                                   \<lparr>relayed := relayed_base\<rparr>"
    from inb p have evs: "payload = inbound w" by simp
    have fr': "read_frame ws = parsed\<lparr>relayed := relayed_base\<rparr>"
      using fr by (simp add: parsed_def)
    from websocket_read_loop_unmask [OF loop, of i] pf iN iE r
    show ?thesis by (simp add: fr' evs)
  qed
  show "websocket_read new_RedsWebSocket
           (a_world [RdData (hello_header @ hello_payload)] []) 5 =
         (5, bytes_of ''Hello'', new_RedsWebSocket, a_world [] [])"
    by (simp add: read_eval hello_header_def hello_payload_def bytes_of_Hello)
qed

theorem C6_masked_read_witness:
  "websocket_read new_RedsWebSocket
     (a_world [RdData [0x82, 0xFE], RdData [0x00, 0x05, 0x37],
               RdData [0xfa, 0x21, 0x3d, 0x7f, 0x9f], RdData [0x4d, 0x51, 0x58]] []) 5 =
     (5, [0x48, 0x65, 0x6c, 0x6c, 0x6f], new_RedsWebSocket, a_world [] [])
   \<and> [0x48, 0x65, 0x6c, 0x6c, 0x6f] ! 3 = ((0x51 XOR 0x3d) :: byte)
   \<and> websocket_read handle_mid_frame (a_world [RdData [0x4d, 0x51, 0x58]] []) 3 =
       (3, [0x6c, 0x6c, 0x6f], new_RedsWebSocket, a_world [] [])
   \<and> [0x6c, 0x6c, 0x6f] ! 2 = ((0x58 XOR 0x37) :: byte)
   \<and> websocket_read new_RedsWebSocket
           (a_world [RdData (hello_header @ hello_payload)] []) 5 =
         (5, bytes_of ''Hello'', new_RedsWebSocket, a_world [] [])"
proof -
  let ?hdr = "[0x82, 0xFE, 0x00, 0x05, 0x37, 0xfa, 0x21, 0x3d] :: byte list"
  let ?w = "a_world [RdData [0x82, 0xFE], RdData [0x00, 0x05, 0x37],
               RdData [0xfa, 0x21, 0x3d, 0x7f, 0x9f], RdData [0x4d, 0x51, 0x58]] []"
  have h: "2 \<le> length ?hdr" "length ?hdr = websocket_header_len (?hdr ! 1)"
    "?hdr ! 0 AND 0x7F = 0x2" "?hdr ! 1 AND 0x80 \<noteq> 0"
    by (simp_all add: websocket_header_len_def)
  have st: "(0 < length ?hdr \<and> (0 :: 64 word) = 0
              \<and> read_frame new_RedsWebSocket = frame_with_header (take 0 ?hdr))
           \<or> (0 = length ?hdr \<and> (0 :: 64 word) \<le> fst (extract_length (drop 1 ?hdr) 1)
              \<and> read_frame new_RedsWebSocket =
                  (snd (websocket_get_frame_header (frame_with_header ?hdr)))\<lparr>relayed := 0\<rparr>)"
    by (simp add: new_RedsWebSocket_def frame_with_header_Nil)
  have inb: "stream_take (length ?hdr - 0) (inbound ?w) =
      Some (drop 0 ?hdr, [RdData [0x7f, 0x9f], RdData [0x4d, 0x51, 0x58]])"
    by (simp add: a_world_def)
  have i: "3 < nat 5" "3 < unat (fst (extract_length (drop 1 ?hdr) 1) - 0)"
    by (simp_all add: extract_length_def int_shl_def)
  note a = C6_masked_read [OF h st inb read_chunked_frame i]
  have h': "2 \<le> length hello_header" "length hello_header = websocket_header_len (hello_header ! 1)"
    "hello_header ! 0 AND 0x7F = 0x2" "hello_header ! 1 AND 0x80 \<noteq> 0"
    by (simp_all add: websocket_header_len_def hello_header_def)
  have st': "(6 < length hello_header \<and> (2 :: 64 word) = 0
              \<and> read_frame handle_mid_frame = frame_with_header (take 6 hello_header))
           \<or> (6 = length hello_header \<and> (2 :: 64 word) \<le> fst (extract_length (drop 1 hello_header) 1)
              \<and> read_frame handle_mid_frame =
                  (snd (websocket_get_frame_header (frame_with_header hello_header)))\<lparr>relayed := 2\<rparr>)"
    using mid_frame_parsed by (simp add: hello_header_def extract_length_def word_le_nat_alt)
  have inb': "stream_take (length hello_header - 6) (inbound (a_world [RdData [0x4d, 0x51, 0x58]] [])) =
      Some (drop 6 hello_header, [RdData [0x4d, 0x51, 0x58]])"
    by (simp add: a_world_def hello_header_def)
  have i': "2 < nat 3" "2 < unat (fst (extract_length (drop 1 hello_header) 1) - 2)"
    by (simp_all add: extract_length_def hello_header_def)
  note b = C6_masked_read [OF h' st' inb' read_mid_frame i']
  from a b read_chunked_frame read_mid_frame show ?thesis
    by (simp add: hello_header_def)
qed

text \<open>
  C6 as stated speaks of every byte i < N of a call. The loop of websocket_read goes on
  with the next frame while the caller's buffer has room, so one call can deliver bytes
  of several frames. A handle two bytes into "Hello" reads, into a buffer of 8 bytes, the
  last three bytes of that frame and the one byte of the next frame
  82 81 01 02 03 04 40, whose mask is another one: N = 4, and byte 3 is 0x41, which is
  neither byte 3 of the raw stream nor the next payload byte XOR \<open>m[(2 + 3) % 4]\<close>.
\<close>

theorem C6_read_spans_frames_counterexample:
  "websocket_read handle_mid_frame
     (a_world [RdData [0x4d, 0x51, 0x58, 0x82, 0x81, 0x01, 0x02, 0x03, 0x04, 0x40]] []) 8 =
     (4, [0x6c, 0x6c, 0x6f, 0x41], new_RedsWebSocket, (a_world [] [])\<lparr>errno := EAGAIN\<rparr>)
   \<and> frame_ready (read_frame handle_mid_frame) \<and> masked (read_frame handle_mid_frame)
   \<and> ftype (read_frame handle_mid_frame) = 0x2
   \<and> relayed (read_frame handle_mid_frame) = 2
   \<and> fmask (read_frame handle_mid_frame) = [0x37, 0xfa, 0x21, 0x3d]
   \<and> [0x6c, 0x6c, 0x6f, 0x41 :: byte] ! 3 \<noteq>
       [0x4d, 0x51, 0x58, 0x82, 0x81, 0x01, 0x02, 0x03, 0x04, 0x40] ! 3
         XOR [0x37, 0xfa, 0x21, 0x3d] ! ((2 + 3) mod 4)
   \<and> [0x6c, 0x6c, 0x6f, 0x41 :: byte] ! 3 \<noteq>
       [0x4d, 0x51, 0x58, 0x40] ! 3 XOR [0x37, 0xfa, 0x21, 0x3d] ! ((2 + 3) mod 4)"
  by (simp add: read_eval handle_mid_frame_def hello_header_def)

subsection \<open>The outbound header is sent before the body\<close>





lemma respects_errno [simp]: "respects_contract (w\<lparr>errno := e\<rparr>) = respects_contract w"
  by (simp add: respects_contract_def)



lemma raw_read_contract:
  "raw_read w n = (rc, d, w') \<Longrightarrow> respects_contract w' = respects_contract w"
  by (auto simp add: raw_read_def respects_contract_def Let_def
      split: list.splits rd_event.splits)

lemma write_inv_fields:
  "write_header_pos ws' = write_header_pos ws \<Longrightarrow> write_header_len ws' = write_header_len ws
   \<Longrightarrow> write_remainder ws' = write_remainder ws \<Longrightarrow> write_inv ws' = write_inv ws"
  by (simp add: write_inv_def)





lemma write_inv_no_remainder:
  "write_header_pos ws \<le> write_header_len ws \<Longrightarrow> write_remainder ws = 0 \<Longrightarrow> write_inv ws"
  by (simp add: write_inv_def)





lemma write_inv_read_side [simp]:
  "write_inv (ws\<lparr>read_frame := f\<rparr>) = write_inv ws"
  "write_inv (ws\<lparr>closed := c\<rparr>) = write_inv ws"
  "write_inv (ws\<lparr>close_pending := p\<rparr>) = write_inv ws"
  by (simp_all add: write_inv_def)

















subsection \<open>Unmasked frames\<close>

text \<open>
  C10. The claim is that a binary frame without the MASK bit is delivered unchanged and
  that the relayed counter and the clearing of the frame behave as for masked frames.
  The bytes are delivered unchanged, but \<open>relay_data\<close> advances \<open>relayed\<close> only inside
  its unmasking loop: after the two payload bytes of the frame 82 02 48 69 the frame is
  still ready with relayed = 0, and the header of the next frame, 82 01, is delivered to
  the caller as payload.
\<close>

theorem C10_unmasked_frame_not_counted:
  "websocket_read new_RedsWebSocket
     (a_world [RdData [0x82, 0x02, 0x48, 0x69, 0x82, 0x01, 0x21]] []) 4 =
   (4, [0x48, 0x69, 0x82, 0x01],
    new_RedsWebSocket\<lparr>read_frame :=
      (frame_with_header [0x82, 0x02])\<lparr>ftype := 2, frame_ready := True, expected_len := 2\<rparr>\<rparr>,
    a_world [RdData [0x21]] [])"
  by (simp add: read_eval)

text \<open>
  The same bytes behind a masked frame of two bytes: the frame is cleared after its
  payload and the next header stays on the stream.
\<close>

lemma masked_frame_counted:
  "websocket_read new_RedsWebSocket
     (a_world [RdData [0x82, 0x82, 0, 0, 0, 0, 0x48, 0x69, 0x82, 0x01, 0x21]] []) 2 =
   (2, [0x48, 0x69], new_RedsWebSocket, a_world [RdData [0x82, 0x01, 0x21]] [])"
  by (simp add: read_eval)

end
